theory Spec2Isabelle
  imports Complex_Main "HOL-Library.AList"
begin

section \<open>Values, types and schema declarations\<close>

text \<open>
  The library is dynamically typed JavaScript. The embedding fixes a universe of values
  large enough for \<^verbatim>\<open>lib/base-document.js\<close>:
  \<^item> numbers are the finite ones, as reals (\<^verbatim>\<open>NaN\<close> and the infinities are left out);
  \<^item> a \<^verbatim>\<open>Date\<close> carries its time value in milliseconds, \<open>None\<close> for an invalid date;
  \<^item> a native id of the Mongo client is either a string or an \<^verbatim>\<open>ObjectId\<close> object; an
    object has an identity, which is the first argument of \<open>ObjectId\<close>, and a hex value;
  \<^item> an array has its elements and, being an object, named properties of its own
    (\<^verbatim>\<open>populate\<close> attaches \<^verbatim>\<open>idList\<close>);
  \<^item> a plain object and the two maps \<^verbatim>\<open>_schema\<close> and \<^verbatim>\<open>_values\<close> of a document are
    association lists in insertion order, with \<open>map_of\<close> for a read, \<open>AList.update\<close> for a
    write (in place for a known key, appended for a new one) and \<open>AList.delete\<close> for
    \<^verbatim>\<open>delete\<close>; the keys of such an object are distinct;
  \<^item> a function object is \<open>Fn n\<close>; \<open>Builtin k\<close> is the member called \<open>k\<close> that every object
    inherits from \<^verbatim>\<open>Object.prototype\<close> (\<^verbatim>\<open>toString\<close>, \<^verbatim>\<open>constructor\<close>, ...) or that every
    document inherits from the classes of the library (\<^verbatim>\<open>validate\<close>, \<^verbatim>\<open>fill\<close>, ...);
  \<^item> a type used as a value (\<^verbatim>\<open>String\<close>, a model class, an array \<^verbatim>\<open>[T]\<close> of one) is \<open>TypeV\<close>,
    and an object with a \<^verbatim>\<open>type\<close>, which is a declaration \<^verbatim>\<open>{type: ..., ...}\<close>, is \<open>DeclV\<close>;
    \<open>Obj\<close> stands for the objects without one. A declaration is well typed: its bounds
    are numbers, its choices an array, its pattern a regular expression, named by its
    source.
  Every other object of the value universe (arrays, plain objects, dates, documents) is
  held by value: two occurrences are two objects. No object has an own property called
  \<^verbatim>\<open>__proto__\<close>, and no document a field called \<^verbatim>\<open>_schema\<close>, \<^verbatim>\<open>_values\<close> or \<^verbatim>\<open>_meta\<close>.
\<close>

datatype doc_kind = KBase | KDocument | KEmbedded

datatype jstype =
    TString | TNumber | TBoolean | TDate | TBuffer | TNativeId
  | TClass doc_kind string
  | TArr "jstype list"

datatype 'v decl = Decl
  (dtype: jstype)
  (ddefault: "'v option")
  (dchoices: "'v list option")
  (dmin: "real option")
  (dmax: "real option")
  (dmatch: "string option")
  (dvalidate: "'v option")
  (dprivate: bool)

text \<open>An own property of a class's prototype: a method or another value, or an accessor
  with its getter and its setter, each named by a number or missing.\<close>

datatype 'v slot = Data 'v | Accessor "nat option" "nat option"

datatype 'v doc_obj = Instance
  (kind: doc_kind)
  (meta: "string option")
  (schema: "(string \<times> 'v decl) list")
  (vals: "(string \<times> 'v) list")
  (props: "(string \<times> 'v) list")
  (proto: "(string \<times> 'v slot) list")

datatype jsval =
    Undefined
  | Null
  | Bool bool
  | Num real
  | Str string
  | DateV "int option"
  | ObjectId nat string
  | Fn nat
  | Builtin string
  | TypeV jstype
  | DeclV "jsval decl"
  | Arr "jsval list" "(string \<times> jsval) list"
  | Obj "(string \<times> jsval) list"
  | Inst "jsval doc_obj"

text \<open>
  A document instance has the result of its \<^verbatim>\<open>documentClass()\<close> (\<open>KBase\<close> is a class that
  did not override the method of \<^verbatim>\<open>BaseDocument\<close>, which throws), the collection name
  of \<^verbatim>\<open>_meta\<close> when the object has a \<^verbatim>\<open>_meta\<close> (the constructor of \<^verbatim>\<open>BaseDocument\<close> sets
  none), the two maps, its ordinary own properties and the own properties of its class's
  prototype. Members inherited from further up the prototype chain are not in \<open>proto\<close>.
  A document is read and written through its proxy.
\<close>

type_synonym doc = "jsval doc_obj"

datatype type_name = Plain jstype | Bracketed jstype

datatype value_name = TypeOf string | Elements "jsval list"

datatype error =
    JsTypeError
  | NotOverridden
  | SchemaError jsval
  | WrongType string string type_name value_name
  | NoMatch string string string jsval
  | NotInChoices string string "jsval list" jsval
  | LessThanMin string string real jsval
  | GreaterThanMax string string real jsval
  | CustomFailed string string jsval
  | BackendError string
  | Unmodelled

text \<open>
  \<open>JsTypeError\<close> is the engine's own \<^verbatim>\<open>TypeError\<close> (a property read on \<^verbatim>\<open>undefined\<close>, a
  call of something that is no function, an assignment that a proxy refuses in strict
  code); the validation errors carry the collection, the key and the offending value of
  their message. \<open>Unmodelled\<close> is no exception of the program: it marks the inputs on
  which the program does what these values cannot express (data that overwrites the
  slots \<^verbatim>\<open>_schema\<close>, \<^verbatim>\<open>_values\<close> or \<^verbatim>\<open>_meta\<close> of a document).

  What the file requires from \<^verbatim>\<open>./validate\<close> and \<^verbatim>\<open>./clients\<close>, and what the engine and
  the user's classes provide, is a parameter of the model. \<open>isValidUntyped v\<close> is
  \<^verbatim>\<open>isValidType(v, undefined)\<close>. A getter of a user's class runs on the document and
  returns a value or throws; a setter returns the document it leaves or throws.
\<close>

record env =
  isSupportedType :: "jstype \<Rightarrow> bool"
  isValidType :: "jsval \<Rightarrow> jstype \<Rightarrow> bool"
  isValidUntyped :: "jsval \<Rightarrow> bool"
  isInChoices :: "jsval list option \<Rightarrow> jsval \<Rightarrow> bool"
  isNativeId :: "jsval \<Rightarrow> bool"
  toNativeId :: "jsval \<Rightarrow> jsval"
  regexTest :: "string \<Rightarrow> string \<Rightarrow> bool"
  callFn :: "jsval \<Rightarrow> jsval list \<Rightarrow> jsval"
  stringToNumber :: "string \<Rightarrow> real option"
  objectToNumber :: "jsval \<Rightarrow> real option"
  construct :: "string \<Rightarrow> doc"
  loadById :: "jstype \<Rightarrow> jsval \<Rightarrow> error + jsval"
  getter :: "nat \<Rightarrow> doc \<Rightarrow> error + jsval"
  setter :: "nat \<Rightarrow> doc \<Rightarrow> jsval \<Rightarrow> error + doc"

fun truthy :: "jsval \<Rightarrow> bool" where
  "truthy Undefined = False"
| "truthy Null = False"
| "truthy (Bool b) = b"
| "truthy (Num x) = (x \<noteq> 0)"
| "truthy (Str s) = (s \<noteq> [])"
| "truthy _ = True"

fun typeof :: "jsval \<Rightarrow> string" where
  "typeof Undefined = ''undefined''"
| "typeof (Bool b) = ''boolean''"
| "typeof (Num x) = ''number''"
| "typeof (Str s) = ''string''"
| "typeof (Fn f) = ''function''"
| "typeof (Builtin k) = (if k = ''__proto__'' then ''object'' else ''function'')"
| "typeof (TypeV (TArr ts)) = ''object''"
| "typeof (TypeV t) = ''function''"
| "typeof _ = ''object''"

text \<open>Modelled from the spec: \<^verbatim>\<open>isArray\<close>, \<^verbatim>\<open>isString\<close>, \<^verbatim>\<open>isNumber\<close> and \<^verbatim>\<open>isDocument\<close> of
  \<^verbatim>\<open>./validate\<close>, which is not among the sources: the tests of shape their names say.\<close>

fun isArray :: "jsval \<Rightarrow> bool" where
  "isArray (Arr xs ps) = True"
| "isArray _ = False"

fun isArrayType :: "jstype \<Rightarrow> bool" where
  "isArrayType (TArr ts) = True"
| "isArrayType _ = False"

fun isString :: "jsval \<Rightarrow> bool" where
  "isString (Str s) = True"
| "isString _ = False"

fun isNumber :: "jsval \<Rightarrow> bool" where
  "isNumber (Num x) = True"
| "isNumber _ = False"

fun isDocument :: "jstype \<Rightarrow> bool" where
  "isDocument (TClass KDocument c) = True"
| "isDocument _ = False"

text \<open>\<^verbatim>\<open>ToNumber\<close>, as the relational operators apply it; \<open>None\<close> is \<^verbatim>\<open>NaN\<close>.\<close>

fun toNumber :: "env \<Rightarrow> jsval \<Rightarrow> real option" where
  "toNumber E Undefined = None"
| "toNumber E Null = Some 0"
| "toNumber E (Bool b) = Some (if b then 1 else 0)"
| "toNumber E (Num x) = Some x"
| "toNumber E (Str s) = stringToNumber E s"
| "toNumber E (DateV t) = map_option real_of_int t"
| "toNumber E (ObjectId a h) = stringToNumber E h"
| "toNumber E v = objectToNumber E v"

text \<open>\<^verbatim>\<open>value < bound\<close> and \<^verbatim>\<open>value > bound\<close> for a numeric bound.\<close>

definition js_lt :: "env \<Rightarrow> jsval \<Rightarrow> real \<Rightarrow> bool" where
  "js_lt E v b = (case toNumber E v of None \<Rightarrow> False | Some x \<Rightarrow> x < b)"

definition js_gt :: "env \<Rightarrow> jsval \<Rightarrow> real \<Rightarrow> bool" where
  "js_gt E v b = (case toNumber E v of None \<Rightarrow> False | Some x \<Rightarrow> b < x)"

section \<open>The proxy handler\<close>

text \<open>
  The maps \<^verbatim>\<open>_schema\<close> and \<^verbatim>\<open>_values\<close> are plain objects, so \<^verbatim>\<open>key in map\<close> and \<^verbatim>\<open>map[key]\<close>
  find the members of \<^verbatim>\<open>Object.prototype\<close> next to the own keys. These are the members
  that the language gives every object.
\<close>

definition object_members :: "string list" where
  "object_members =
     [''constructor'', ''toString'', ''toLocaleString'', ''valueOf'', ''hasOwnProperty'',
      ''isPrototypeOf'', ''propertyIsEnumerable'', ''__proto__'', ''__defineGetter__'',
      ''__defineSetter__'', ''__lookupGetter__'', ''__lookupSetter__'']"

text \<open>\<^verbatim>\<open>key in map\<close> for a plain object.\<close>

definition has_key :: "(string \<times> 'a) list \<Rightarrow> string \<Rightarrow> bool" where
  "has_key m k = (k \<in> fst ` set m \<or> k \<in> set object_members)"

text \<open>\<^verbatim>\<open>map[key]\<close> for a plain object of values.\<close>

definition read :: "(string \<times> jsval) list \<Rightarrow> string \<Rightarrow> jsval" where
  "read m k =
     (case map_of m k of
        Some v \<Rightarrow> v
      | None \<Rightarrow> if k \<in> set object_members then Builtin k else Undefined)"

text \<open>
  \<^verbatim>\<open>Reflect.get\<close>, \<^verbatim>\<open>Reflect.set\<close> and \<^verbatim>\<open>Reflect.has\<close> on the target. A read finds an ordinary
  own property, then an own property of the class's prototype, where a getter runs on the
  document, then the members that \<^verbatim>\<open>BaseDocument\<close> gives every document, then those of
  \<^verbatim>\<open>Object.prototype\<close>. An assignment to a name that the prototype chain holds as a value
  shadows it with an own property; to an accessor it runs the setter, and without a setter
  it fails, which in the strict code of the library throws. The slots \<^verbatim>\<open>_schema\<close>, \<^verbatim>\<open>_values\<close>
  and \<^verbatim>\<open>_meta\<close> hold the maps themselves, which are no values of the model. The members of
  the classes between \<^verbatim>\<open>BaseDocument\<close> and the model, which are not among the sources, are
  left out.
\<close>

definition base_methods :: "string list" where
  "base_methods =
     [''documentClass'', ''schema'', ''preValidate'', ''postValidate'', ''preSave'', ''postSave'',
      ''preDelete'', ''postDelete'', ''generateSchema'', ''validate'', ''canonicalize'',
      ''populate'', ''fill'', ''getDefault'', ''toJSON'']"

definition base_members :: "string list" where
  "base_members = [''constructor'', ''id'', ''_schema'', ''_values''] @ base_methods"

definition reflect_get :: "env \<Rightarrow> doc \<Rightarrow> string \<Rightarrow> error + jsval" where
  "reflect_get E d k =
     (if k = ''_schema'' \<or> k = ''_values'' \<or> (k = ''_meta'' \<and> meta d \<noteq> None) then Inl Unmodelled
      else (case map_of (props d) k of
              Some v \<Rightarrow> Inr v
            | None \<Rightarrow>
                (case map_of (proto d) k of
                   Some (Data v) \<Rightarrow> Inr v
                 | Some (Accessor g s) \<Rightarrow>
                     (case g of None \<Rightarrow> Inr Undefined | Some f \<Rightarrow> getter E f d)
                 | None \<Rightarrow>
                     if k = ''id'' then Inr (read (vals d) ''_id'')
                     else if k \<in> set base_methods \<or> k \<in> set object_members then Inr (Builtin k)
                     else Inr Undefined)))"

definition set_prop :: "doc \<Rightarrow> string \<Rightarrow> jsval \<Rightarrow> doc" where
  "set_prop d k v =
     Instance (kind d) (meta d) (schema d) (vals d) (AList.update k v (props d)) (proto d)"

definition set_value :: "doc \<Rightarrow> string \<Rightarrow> jsval \<Rightarrow> doc" where
  "set_value d k v =
     Instance (kind d) (meta d) (schema d) (AList.update k v (vals d)) (props d) (proto d)"

definition reflect_set :: "env \<Rightarrow> doc \<Rightarrow> string \<Rightarrow> jsval \<Rightarrow> error + doc" where
  "reflect_set E d k v =
     (if k = ''_schema'' \<or> k = ''_values'' \<or> k = ''_meta'' \<or> k = ''__proto__'' then Inl Unmodelled
      else (case map_of (props d) k of
              Some w \<Rightarrow> Inr (set_prop d k v)
            | None \<Rightarrow>
                (case map_of (proto d) k of
                   Some (Data w) \<Rightarrow> Inr (set_prop d k v)
                 | Some (Accessor g s) \<Rightarrow>
                     (case s of None \<Rightarrow> Inl JsTypeError | Some f \<Rightarrow> setter E f d v)
                 | None \<Rightarrow>
                     if k = ''id'' then Inr (set_value d ''_id'' v) else Inr (set_prop d k v))))"

definition reflect_has :: "doc \<Rightarrow> string \<Rightarrow> bool" where
  "reflect_has d k =
     (k \<in> fst ` set (props d) \<or> k \<in> fst ` set (proto d) \<or> k \<in> set base_members
      \<or> k \<in> set object_members \<or> (k = ''_meta'' \<and> meta d \<noteq> None))"

text \<open>The four traps. \<^verbatim>\<open>get\<close>: \<^verbatim>\<open>propKey in target._values\<close>, then the alias, then
  \<^verbatim>\<open>Reflect.get\<close>. \<^verbatim>\<open>set\<close>: \<^verbatim>\<open>propKey in target._schema\<close>, then the alias, then \<^verbatim>\<open>Reflect.set\<close>;
  an assignment to \<^verbatim>\<open>__proto__\<close> in a plain object changes its prototype, which the model
  does not follow. \<^verbatim>\<open>deleteProperty\<close>: \<^verbatim>\<open>delete\<close> removes own properties only and the trap
  returns \<^verbatim>\<open>true\<close>. \<^verbatim>\<open>has\<close>: \<^verbatim>\<open>propKey in target._schema || Reflect.has(target, propKey)\<close>.\<close>

definition proxy_get :: "env \<Rightarrow> doc \<Rightarrow> string \<Rightarrow> error + jsval" where
  "proxy_get E d k =
     (if has_key (vals d) k then Inr (read (vals d) k)
      else if k = ''id'' then Inr (read (vals d) ''_id'')
      else reflect_get E d k)"

definition proxy_set :: "env \<Rightarrow> doc \<Rightarrow> string \<Rightarrow> jsval \<Rightarrow> error + doc" where
  "proxy_set E d k v =
     (if k = ''_schema'' \<or> k = ''_values'' \<or> k = ''_meta'' \<or> k = ''__proto__'' then Inl Unmodelled
      else if has_key (schema d) k then Inr (set_value d k v)
      else if k = ''id'' then Inr (set_value d ''_id'' v)
      else reflect_set E d k v)"

definition deleteProperty :: "doc \<Rightarrow> string \<Rightarrow> bool \<times> doc" where
  "deleteProperty d k =
     (True, Instance (kind d) (meta d) (AList.delete k (schema d)) (AList.delete k (vals d))
              (props d) (proto d))"

definition proxy_has :: "doc \<Rightarrow> string \<Rightarrow> bool" where
  "proxy_has d k = (has_key (schema d) k \<or> reflect_has d k)"

section \<open>validate\<close>

text \<open>
  A member of a document, \<^verbatim>\<open>value.documentClass\<close> or \<^verbatim>\<open>value.validate\<close>, is read through
  the proxy; \<open>None\<close> stands for the method of that name that the document inherits from
  the classes of the library. A class that defines such a member as an accessor is not
  followed.
\<close>

definition member :: "env \<Rightarrow> doc \<Rightarrow> string \<Rightarrow> error + jsval option" where
  "member E d k =
     (case proxy_get (E\<lparr>getter := \<lambda>f d. Inl Unmodelled\<rparr>) d k of
        Inl e \<Rightarrow> Inl e
      | Inr v \<Rightarrow> Inr (if v = Builtin k then None else Some v))"

text \<open>\<^verbatim>\<open>f && f() === 'embedded'\<close> for a member \<open>f\<close> that was found. A function of the user
  runs; what a method of the library does on an object that is not its own is not
  followed.\<close>

definition says_embedded :: "env \<Rightarrow> jsval \<Rightarrow> error + bool" where
  "says_embedded E f =
     (if \<not> truthy f then Inr False
      else (case f of
              Builtin k \<Rightarrow> Inl Unmodelled
            | _ \<Rightarrow> if typeof f = ''function'' then Inr (callFn E f [] = Str ''embedded'')
                   else Inl JsTypeError))"

definition documentClass :: "doc_kind \<Rightarrow> error + string" where
  "documentClass k =
     (case k of KBase \<Rightarrow> Inl NotOverridden
      | KDocument \<Rightarrow> Inr ''document''
      | KEmbedded \<Rightarrow> Inr ''embedded'')"

text \<open>\<^verbatim>\<open>value !== null && value !== undefined && value.documentClass &&
  value.documentClass() === 'embedded'\<close>.\<close>

fun is_embedded :: "env \<Rightarrow> jsval \<Rightarrow> error + bool" where
  "is_embedded E (Inst d) =
     (case member E d ''documentClass'' of
        Inl e \<Rightarrow> Inl e
      | Inr (Some f) \<Rightarrow> says_embedded E f
      | Inr None \<Rightarrow>
          (case documentClass (kind d) of Inl e \<Rightarrow> Inl e | Inr c \<Rightarrow> Inr (c = ''embedded'')))"
| "is_embedded E (TypeV (TClass k c)) =
     (case documentClass k of Inl e \<Rightarrow> Inl e | Inr c \<Rightarrow> Inr (c = ''embedded''))"
| "is_embedded E (Obj kvs) =
     (case map_of kvs ''documentClass'' of Some f \<Rightarrow> says_embedded E f | None \<Rightarrow> Inr False)"
| "is_embedded E (Arr xs ps) =
     (case map_of ps ''documentClass'' of Some f \<Rightarrow> says_embedded E f | None \<Rightarrow> Inr False)"
| "is_embedded E v = Inr False"

text \<open>A call \<^verbatim>\<open>value.m()\<close> of a member that is not the inherited method: a function runs
  (what it does is the user's), anything else is no function; what a method of the
  library does on an object that is not its own is not followed.\<close>

definition call_member :: "jsval option \<Rightarrow> error + unit" where
  "call_member f =
     (case f of
        None \<Rightarrow> Inl JsTypeError
      | Some (Builtin k) \<Rightarrow> Inl Unmodelled
      | Some g \<Rightarrow> if typeof g = ''function'' then Inr () else Inl JsTypeError)"

fun own_member :: "jsval \<Rightarrow> string \<Rightarrow> jsval option" where
  "own_member (Obj kvs) k = map_of kvs k"
| "own_member (Arr xs ps) k = map_of ps k"
| "own_member v k = None"

text \<open>Every message of \<^verbatim>\<open>validate\<close> starts with \<^verbatim>\<open>that._meta.collection\<close>; on a
  document without \<^verbatim>\<open>_meta\<close> that read is the exception thrown, a \<^verbatim>\<open>TypeError\<close>.\<close>

definition message :: "string option \<Rightarrow> (string \<Rightarrow> error) \<Rightarrow> error" where
  "message m mk = (case m of None \<Rightarrow> JsTypeError | Some c \<Rightarrow> mk c)"

definition throw :: "string option \<Rightarrow> (string \<Rightarrow> error) \<Rightarrow> error + unit" where
  "throw m mk = Inl (message m mk)"

definition typeName :: "jstype \<Rightarrow> error + type_name" where
  "typeName t =
     (case t of TArr [] \<Rightarrow> Inl JsTypeError
      | TArr (u # us) \<Rightarrow> Inr (Bracketed u)
      | _ \<Rightarrow> Inr (Plain t))"

definition valueName :: "jsval \<Rightarrow> value_name" where
  "valueName v = (case v of Arr xs ps \<Rightarrow> Elements xs | _ \<Rightarrow> TypeOf (typeof v))"

definition check_type :: "env \<Rightarrow> string option \<Rightarrow> string \<Rightarrow> jsval decl \<Rightarrow> jsval \<Rightarrow> error + unit" where
  "check_type E m key d v =
     (if \<not> isValidType E v (dtype d)
      then (case typeName (dtype d) of
              Inl e \<Rightarrow> Inl e
            | Inr tn \<Rightarrow> throw m (\<lambda>c. WrongType c key tn (valueName v)))
      else Inr ())"

definition check_match :: "env \<Rightarrow> string option \<Rightarrow> string \<Rightarrow> jsval decl \<Rightarrow> jsval \<Rightarrow> error + unit" where
  "check_match E m key d v =
     (case dmatch d of
        None \<Rightarrow> Inr ()
      | Some r \<Rightarrow>
          (case v of
             Str s \<Rightarrow> if \<not> regexTest E r s then throw m (\<lambda>c. NoMatch c key r v) else Inr ()
           | _ \<Rightarrow> Inr ()))"

definition check_choices :: "env \<Rightarrow> string option \<Rightarrow> string \<Rightarrow> jsval decl \<Rightarrow> jsval \<Rightarrow> error + unit" where
  "check_choices E m key d v =
     (if \<not> isInChoices E (dchoices d) v
      then throw m (\<lambda>c. case dchoices d of
                            None \<Rightarrow> JsTypeError
                          | Some cs \<Rightarrow> NotInChoices c key cs v)
      else Inr ())"

text \<open>\<^verbatim>\<open>schema[key].min && value < schema[key].min\<close>: the bound is read for its truth value
  first, and the number 0 is falsy.\<close>

definition check_min :: "env \<Rightarrow> string option \<Rightarrow> string \<Rightarrow> jsval decl \<Rightarrow> jsval \<Rightarrow> error + unit" where
  "check_min E m key d v =
     (case dmin d of
        None \<Rightarrow> Inr ()
      | Some b \<Rightarrow>
          if truthy (Num b) \<and> js_lt E v b then throw m (\<lambda>c. LessThanMin c key b v) else Inr ())"

definition check_max :: "env \<Rightarrow> string option \<Rightarrow> string \<Rightarrow> jsval decl \<Rightarrow> jsval \<Rightarrow> error + unit" where
  "check_max E m key d v =
     (case dmax d of
        None \<Rightarrow> Inr ()
      | Some b \<Rightarrow>
          if truthy (Num b) \<and> js_gt E v b then throw m (\<lambda>c. GreaterThanMax c key b v) else Inr ())"

definition check_custom :: "env \<Rightarrow> string option \<Rightarrow> string \<Rightarrow> jsval decl \<Rightarrow> jsval \<Rightarrow> error + unit" where
  "check_custom E m key d v =
     (case dvalidate d of
        None \<Rightarrow> Inr ()
      | Some f \<Rightarrow>
          if typeof f = ''function'' \<and> \<not> truthy (callFn E f [v])
          then throw m (\<lambda>c. CustomFailed c key v)
          else Inr ())"

text \<open>Statements in sequence: the first one that throws ends the block.\<close>

fun first_error :: "(error + unit) list \<Rightarrow> error + unit" where
  "first_error [] = Inr ()"
| "first_error (Inl e # rs) = Inl e"
| "first_error (Inr u # rs) = first_error rs"

text \<open>The body of the \<^verbatim>\<open>forEach\<close> of \<^verbatim>\<open>validate\<close> below the test for an embedded document;
  \<^verbatim>\<open>that._schema[key].type\<close> is read first and throws when \<^verbatim>\<open>_schema[key]\<close> is \<^verbatim>\<open>undefined\<close>.
  Under a name of \<^verbatim>\<open>Object.prototype\<close> without a declaration of its own it is the
  inherited member, which has none of the properties of a declaration: the type and the
  choices are \<^verbatim>\<open>undefined\<close>, the other checks are skipped, and both messages throw a
  \<^verbatim>\<open>TypeError\<close> while they are put together.\<close>

definition validate_field :: "env \<Rightarrow> string option \<Rightarrow> (string \<times> jsval decl) list \<Rightarrow> string \<Rightarrow> jsval \<Rightarrow> error + unit" where
  "validate_field E m sch key v =
     (case map_of sch key of
        None \<Rightarrow>
          if key \<in> set object_members
          then first_error
                 [if \<not> isValidUntyped E v then Inl JsTypeError else Inr (),
                  if \<not> isInChoices E None v then Inl JsTypeError else Inr ()]
          else Inl JsTypeError
      | Some d \<Rightarrow>
          first_error
            [check_type E m key d v, check_match E m key d v, check_choices E m key d v,
             check_min E m key d v, check_max E m key d v, check_custom E m key d v])"

text \<open>
  \<^verbatim>\<open>_.keys(that._values).forEach\<close> visits the keys in insertion order and reads each value;
  nothing is written during the pass, so this is a walk along the association list. An
  exception leaves the \<^verbatim>\<open>forEach\<close> and the method.
\<close>

function validate :: "env \<Rightarrow> doc \<Rightarrow> error + unit"
and validate_values ::
  "env \<Rightarrow> string option \<Rightarrow> (string \<times> jsval decl) list \<Rightarrow> (string \<times> jsval) list \<Rightarrow> error + unit"
and invoke_validate :: "env \<Rightarrow> jsval \<Rightarrow> error + unit"
where
  "validate E (Instance k m sch vs ps pr) = validate_values E m sch vs"
| "validate_values E m sch [] = Inr ()"
| "validate_values E m sch ((key, v) # rest) =
     (case is_embedded E v of
        Inl e \<Rightarrow> Inl e
      | Inr True \<Rightarrow>
          (case invoke_validate E v of
             Inl e \<Rightarrow> Inl e
           | Inr u \<Rightarrow> validate_values E m sch rest)
      | Inr False \<Rightarrow>
          (case validate_field E m sch key v of
             Inl e \<Rightarrow> Inl e
           | Inr u \<Rightarrow> validate_values E m sch rest))"
| "invoke_validate E v =
     (case v of
        Inst d \<Rightarrow>
          (case member E d ''validate'' of
             Inl e \<Rightarrow> Inl e
           | Inr None \<Rightarrow> validate E d
           | Inr (Some f) \<Rightarrow> call_member (Some f))
      | _ \<Rightarrow> call_member (own_member v ''validate''))"
  by pat_completeness auto
termination
  by (relation "measure (\<lambda>x. case x of
          Inl (E, d) \<Rightarrow> size_doc_obj size d
        | Inr (Inl (E, m, sch, vs)) \<Rightarrow> size_list (size_prod (\<lambda>_. 0) size) vs
        | Inr (Inr (E, v)) \<Rightarrow> size v)") auto

section \<open>canonicalize\<close>

text \<open>\<^verbatim>\<open>new Date(value)\<close> for a number: the time value is clipped (\<^verbatim>\<open>TimeClip\<close>), which
  gives an invalid date beyond 8.64e15 milliseconds and drops the fraction otherwise.\<close>

definition newDate :: "real \<Rightarrow> jsval" where
  "newDate x =
     DateV (if \<bar>x\<bar> > 8640000000000000 then None
            else Some (if 0 \<le> x then \<lfloor>x\<rfloor> else \<lceil>x\<rceil>))"

text \<open>\<^verbatim>\<open>that._schema[key].type === Date && isNumber(value)\<close>, with the date to store.\<close>

definition date_of :: "jsval decl \<Rightarrow> jsval \<Rightarrow> jsval option" where
  "date_of d v =
     (if dtype d = TDate then (case v of Num x \<Rightarrow> Some (newDate x) | _ \<Rightarrow> None) else None)"

text \<open>The first test of the body of \<^verbatim>\<open>canonicalize\<close>, with the date to store when it holds.
  \<^verbatim>\<open>that._schema[key].type\<close> throws when \<^verbatim>\<open>_schema[key]\<close> is \<^verbatim>\<open>undefined\<close>; a member inherited
  from \<^verbatim>\<open>Object.prototype\<close> has no \<^verbatim>\<open>type\<close>, which is not \<^verbatim>\<open>Date\<close>.\<close>

definition date_at :: "(string \<times> jsval decl) list \<Rightarrow> string \<Rightarrow> jsval \<Rightarrow> error + jsval option" where
  "date_at sch key v =
     (case map_of sch key of
        Some d \<Rightarrow> Inr (date_of d v)
      | None \<Rightarrow> if key \<in> set object_members then Inr None else Inl JsTypeError)"

definition thrown :: "error + unit \<Rightarrow> error option" where
  "thrown r = (case r of Inl e \<Rightarrow> Some e | Inr u \<Rightarrow> None)"

text \<open>
  The method writes into \<^verbatim>\<open>_values\<close> as it goes, so the model returns the document as it
  is when the method ends together with the exception that ended it, if one did. An
  embedded document is canonicalized in place; its slot holds the same object afterwards.
\<close>

function canonicalize :: "env \<Rightarrow> doc \<Rightarrow> error option \<times> doc"
and canonicalize_values ::
  "env \<Rightarrow> (string \<times> jsval decl) list \<Rightarrow> (string \<times> jsval) list
     \<Rightarrow> error option \<times> (string \<times> jsval) list"
and invoke_canonicalize :: "env \<Rightarrow> jsval \<Rightarrow> error option \<times> jsval"
where
  "canonicalize E (Instance k m sch vs ps pr) =
     (case canonicalize_values E sch vs of (r, vs') \<Rightarrow> (r, Instance k m sch vs' ps pr))"
| "canonicalize_values E sch [] = (None, [])"
| "canonicalize_values E sch ((key, v) # rest) =
     (case date_at sch key v of
        Inl e \<Rightarrow> (Some e, (key, v) # rest)
      | Inr (Some dv) \<Rightarrow>
          (case canonicalize_values E sch rest of (r, rest') \<Rightarrow> (r, (key, dv) # rest'))
      | Inr None \<Rightarrow>
          (case is_embedded E v of
             Inl e \<Rightarrow> (Some e, (key, v) # rest)
           | Inr True \<Rightarrow>
               (case invoke_canonicalize E v of
                  (Some e, v') \<Rightarrow> (Some e, (key, v') # rest)
                | (None, v') \<Rightarrow>
                    (case canonicalize_values E sch rest of
                       (r, rest') \<Rightarrow> (r, (key, v') # rest')))
           | Inr False \<Rightarrow>
               (case canonicalize_values E sch rest of
                  (r, rest') \<Rightarrow> (r, (key, v) # rest'))))"
| "invoke_canonicalize E v =
     (case v of
        Inst d \<Rightarrow>
          (case member E d ''canonicalize'' of
             Inl e \<Rightarrow> (Some e, v)
           | Inr None \<Rightarrow> (case canonicalize E d of (r, d') \<Rightarrow> (r, Inst d'))
           | Inr (Some f) \<Rightarrow> (thrown (call_member (Some f)), v))
      | _ \<Rightarrow> (thrown (call_member (own_member v ''canonicalize'')), v))"
  by pat_completeness auto
termination
  by (relation "measure (\<lambda>x. case x of
          Inl (E, d) \<Rightarrow> size_doc_obj size d
        | Inr (Inl (E, sch, vs)) \<Rightarrow> size_list (size_prod (\<lambda>_. 0) size) vs
        | Inr (Inr (E, v)) \<Rightarrow> size v)") auto

declare invoke_canonicalize.simps [simp del]

section \<open>generateSchema, create and toJSON\<close>

text \<open>\<^verbatim>\<open>normalizeType\<close>: \<^verbatim>\<open>property.type\<close> is read first, which throws on \<^verbatim>\<open>null\<close> and
  \<^verbatim>\<open>undefined\<close>; an object with a \<^verbatim>\<open>type\<close> is the declaration itself, a supported type is
  wrapped into one, and everything else is refused. An array, a document or an object
  of the data that happens to have a truthy \<^verbatim>\<open>type\<close> would be taken for a declaration,
  which the declarations of the model, being well typed, cannot follow.\<close>

definition type_member :: "env \<Rightarrow> jsval \<Rightarrow> error + jsval" where
  "type_member E property =
     (case property of
        Inst d \<Rightarrow> proxy_get E d ''type''
      | Obj kvs \<Rightarrow> Inr (read kvs ''type'')
      | Arr xs ps \<Rightarrow> Inr (read ps ''type'')
      | _ \<Rightarrow> Inr Undefined)"

definition normalizeType :: "env \<Rightarrow> jsval \<Rightarrow> error + jsval decl" where
  "normalizeType E property =
     (case property of
        Undefined \<Rightarrow> Inl JsTypeError
      | Null \<Rightarrow> Inl JsTypeError
      | DeclV d \<Rightarrow> Inr d
      | TypeV t \<Rightarrow>
          if isSupportedType E t then Inr (Decl t None None None None None None False)
          else Inl (SchemaError property)
      | _ \<Rightarrow> (case type_member E property of
                Inl e \<Rightarrow> Inl e
              | Inr t \<Rightarrow> if truthy t then Inl Unmodelled else Inl (SchemaError property)))"

definition getDefault :: "env \<Rightarrow> doc \<Rightarrow> string \<Rightarrow> jsval" where
  "getDefault E d schemaProp =
     (case (case map_of (schema d) schemaProp of None \<Rightarrow> None | Some dc \<Rightarrow> ddefault dc) of
        Some def \<Rightarrow> if typeof def = ''function'' then callFn E def [] else def
      | None \<Rightarrow> if schemaProp = ''_id'' then Null else Undefined)"

definition startsWith_underscore :: "string \<Rightarrow> bool" where
  "startsWith_underscore k = (case k of [] \<Rightarrow> False | c # cs \<Rightarrow> c = CHR ''_'')"

definition set_schema :: "doc \<Rightarrow> string \<Rightarrow> jsval decl \<Rightarrow> doc" where
  "set_schema d k dc =
     Instance (kind d) (meta d) (AList.update k dc (schema d)) (vals d) (props d) (proto d)"

text \<open>The \<^verbatim>\<open>forEach\<close> of \<^verbatim>\<open>generateSchema\<close> over the own enumerable keys of the new object,
  which are \<^verbatim>\<open>_schema\<close>, \<^verbatim>\<open>_values\<close> and the like, skipped for their underscore, and the
  ordinary properties that the constructor assigned. An exception of \<^verbatim>\<open>normalizeType\<close>
  leaves \<^verbatim>\<open>create\<close>, and the object with it.\<close>

fun generateSchema_keys :: "env \<Rightarrow> doc \<Rightarrow> (string \<times> jsval) list \<Rightarrow> error + doc" where
  "generateSchema_keys E d [] = Inr d"
| "generateSchema_keys E d ((k, p) # rest) =
     (if startsWith_underscore k then generateSchema_keys E d rest
      else (case normalizeType E p of
              Inl e \<Rightarrow> Inl e
            | Inr dc \<Rightarrow>
                (let d1 = set_schema d k dc;
                     def = getDefault E d1 k;
                     v = (if isArrayType (dtype dc) then (if truthy def then def else Arr [] [])
                          else def)
                 in generateSchema_keys E (set_value d1 k v) rest)))"

definition generateSchema :: "env \<Rightarrow> doc \<Rightarrow> error + doc" where
  "generateSchema E d = generateSchema_keys E d (props d)"

text \<open>\<^verbatim>\<open>_instantiate\<close> of the class named \<open>c\<close>: \<^verbatim>\<open>new this()\<close>, which is the user's
  constructor, then \<^verbatim>\<open>generateSchema\<close>; the result is wrapped in the proxy, through which
  every document of the model is read and written. \<^verbatim>\<open>create()\<close> without data is this.\<close>

definition instantiate :: "env \<Rightarrow> string \<Rightarrow> error + doc" where
  "instantiate E c = generateSchema E (construct E c)"

text \<open>The first loop of \<^verbatim>\<open>toJSON\<close>, over the own keys of the schema, on the copy of the
  values. \<^verbatim>\<open>values[key]\<close> is a read of a plain object, which finds a member of
  \<^verbatim>\<open>Object.prototype\<close> where the copy has no value of its own. The declaration itself is
  never an array, so the test of the schema entry is that of its type.\<close>

fun toJSON_schema :: "(string \<times> jsval decl) list \<Rightarrow> (string \<times> jsval) list \<Rightarrow> (string \<times> jsval) list" where
  "toJSON_schema [] values = values"
| "toJSON_schema ((key, dc) # sch) values =
     toJSON_schema sch
       (if dprivate dc then AList.delete key values
        else if typeof (read values key) = ''undefined''
        then AList.update key (if isArrayType (dtype dc) then Arr [] [] else Null) values
        else values)"

text \<open>The second loop, over the own property names of the prototype; \<^verbatim>\<open>this[key]\<close> is a
  read through the proxy, and an exception of a getter leaves the method.\<close>

fun toJSON_proto ::
  "env \<Rightarrow> doc \<Rightarrow> string list \<Rightarrow> (string \<times> jsval) list \<Rightarrow> error + (string \<times> jsval) list" where
  "toJSON_proto E d [] values = Inr values"
| "toJSON_proto E d (key # ks) values =
     (if key \<noteq> ''constructor'' \<and> key \<noteq> ''id''
      then (case proxy_get E d key of
              Inl e \<Rightarrow> Inl e
            | Inr v \<Rightarrow> toJSON_proto E d ks (AList.update key v values))
      else toJSON_proto E d ks values)"

text \<open>\<^verbatim>\<open>schema.hasOwnProperty(key)\<close> is a call of the member of \<^verbatim>\<open>Object.prototype\<close>, unless
  the schema has a field of that name, which is no function.\<close>

definition toJSON :: "env \<Rightarrow> doc \<Rightarrow> error + (string \<times> jsval) list" where
  "toJSON E d =
     (if ''hasOwnProperty'' \<in> fst ` set (schema d) then Inl JsTypeError
      else toJSON_proto E d (map fst (proto d)) (toJSON_schema (schema d) (vals d)))"

section \<open>fill\<close>

text \<open>The decimal name of an array index, which is the key that \<^verbatim>\<open>_.keys\<close> gives it.\<close>

fun decimal :: "nat \<Rightarrow> string" where
  "decimal n =
     (if n < 10 then [char_of (48 + n)] else decimal (n div 10) @ [char_of (48 + n mod 10)])"

declare decimal.simps [simp del]

text \<open>\<^verbatim>\<open>type = isArray(type) ? type[0] : type\<close>; \<open>None\<close> is \<^verbatim>\<open>undefined\<close>, the first element
  of an empty array.\<close>

definition element_type :: "jstype \<Rightarrow> jstype option" where
  "element_type t = (case t of TArr [] \<Rightarrow> None | TArr (u # us) \<Rightarrow> Some u | _ \<Rightarrow> Some t)"

text \<open>\<^verbatim>\<open>type.prototype instanceof BaseDocument\<close>: the type is a class of documents.\<close>

fun is_class :: "jstype \<Rightarrow> bool" where
  "is_class (TClass k c) = True"
| "is_class t = False"

fun class_name :: "jstype \<Rightarrow> string" where
  "class_name (TClass k c) = c"
| "class_name t = []"

text \<open>
  \<^verbatim>\<open>fill\<close> writes as it goes, like \<^verbatim>\<open>canonicalize\<close>, and returns the document. The keys
  are those of \<^verbatim>\<open>_.keys(newValues)\<close>: the entries of a plain object, the indices and the
  named properties of an array, the indices of a string (on which \<^verbatim>\<open>key in newValues\<close>
  throws), none for the other primitives, a date or a function. Every key comes from
  \<^verbatim>\<open>newValues\<close>, so the branch \<^verbatim>\<open>!(key in newValues)\<close> is never taken and
  \<^verbatim>\<open>value = newValues[key]\<close>. A document stored under a reference field is filled in
  place; data for a reference field that holds no document becomes new instances of
  the referenced class by \<^verbatim>\<open>_fromData\<close>. A key that is a name of \<^verbatim>\<open>Object.prototype\<close> is
  \<^verbatim>\<open>in instance._schema\<close> whether it is declared or not; when it is not, the type read from
  the inherited member is \<^verbatim>\<open>undefined\<close> and \<^verbatim>\<open>type.prototype\<close> throws. The keys of a
  document, a declaration, a type or an object id passed as \<^verbatim>\<open>newValues\<close> include slots
  that these values do not show, and such a call is marked \<open>Unmodelled\<close>.
\<close>

function fill :: "env \<Rightarrow> doc \<Rightarrow> jsval \<Rightarrow> error option \<times> doc"
and fill_keys :: "env \<Rightarrow> doc \<Rightarrow> (string \<times> jsval) list \<Rightarrow> error option \<times> doc"
and fill_elems :: "env \<Rightarrow> doc \<Rightarrow> nat \<Rightarrow> jsval list \<Rightarrow> error option \<times> doc"
and fill_entry :: "env \<Rightarrow> doc \<Rightarrow> string \<Rightarrow> jsval \<Rightarrow> error option \<times> doc"
and fromData :: "env \<Rightarrow> string \<Rightarrow> jsval \<Rightarrow> error + jsval"
and fromData_list :: "env \<Rightarrow> string \<Rightarrow> jsval list \<Rightarrow> error + jsval list"
where
  "fill E d newValues =
     (if newValues = Null \<or> newValues = Undefined then (None, d)
      else if isNativeId E newValues then (None, set_value d ''_id'' newValues)
      else (case newValues of
              Obj kvs \<Rightarrow> fill_keys E d kvs
            | Arr xs ps \<Rightarrow>
                (case fill_elems E d 0 xs of
                   (Some e, d') \<Rightarrow> (Some e, d')
                 | (None, d') \<Rightarrow> fill_keys E d' ps)
            | Str s \<Rightarrow> if s = [] then (None, d) else (Some JsTypeError, d)
            | Bool b \<Rightarrow> (None, d)
            | Num x \<Rightarrow> (None, d)
            | DateV t \<Rightarrow> (None, d)
            | Fn f \<Rightarrow> (None, d)
            | Builtin k \<Rightarrow> (None, d)
            | _ \<Rightarrow> (Some Unmodelled, d)))"
| "fill_keys E d [] = (None, d)"
| "fill_keys E d ((key, v) # rest) =
     (case fill_entry E d key v of
        (Some e, d') \<Rightarrow> (Some e, d')
      | (None, d') \<Rightarrow> fill_keys E d' rest)"
| "fill_elems E d i [] = (None, d)"
| "fill_elems E d i (x # xs) =
     (case fill_entry E d (decimal i) x of
        (Some e, d') \<Rightarrow> (Some e, d')
      | (None, d') \<Rightarrow> fill_elems E d' (Suc i) xs)"
| "fill_entry E d key v =
     (case map_of (schema d) key of
        Some dc \<Rightarrow>
          (case element_type (dtype dc) of
             None \<Rightarrow> (Some JsTypeError, d)
           | Some t \<Rightarrow>
               if is_class t then
                 (if v = Null \<or> v = Undefined then (None, set_value d key v)
                  else (case map_of (vals d) key of
                          Some (Inst e) \<Rightarrow>
                            (case member E e ''fill'' of
                               Inl x \<Rightarrow> (Some x, d)
                             | Inr None \<Rightarrow>
                                 (case fill E e v of (r, e') \<Rightarrow> (r, set_value d key (Inst e')))
                             | Inr (Some f) \<Rightarrow> (thrown (call_member (Some f)), d))
                        | _ \<Rightarrow>
                            if typeof v = ''object'' \<and> \<not> isNativeId E v
                            then (case fromData E (class_name t) v of
                                    Inl e \<Rightarrow> (Some e, d)
                                  | Inr w \<Rightarrow> (None, set_value d key w))
                            else (None, set_value d key v)))
               else if key = ''_id'' \<or> key = ''id''
               then (None, set_value d key (toNativeId E v))
               else (None, set_value d key v))
      | None \<Rightarrow>
          if key \<in> set object_members then (Some JsTypeError, d)
          else if proxy_has d key
          then (case proxy_set E d key v of Inl e \<Rightarrow> (Some e, d) | Inr d' \<Rightarrow> (None, d'))
          else (None, d))"
| "fromData E c datas =
     (case datas of
        Arr xs ps \<Rightarrow>
          (case fromData_list E c xs of Inl e \<Rightarrow> Inl e | Inr ys \<Rightarrow> Inr (Arr ys []))
      | _ \<Rightarrow>
          (case instantiate E c of
             Inl e \<Rightarrow> Inl e
           | Inr fresh \<Rightarrow>
               (case fill E fresh datas of
                  (Some e, d') \<Rightarrow> Inl e
                | (None, d') \<Rightarrow> Inr (Inst d'))))"
| "fromData_list E c [] = Inr []"
| "fromData_list E c (x # xs) =
     (case instantiate E c of
        Inl e \<Rightarrow> Inl e
      | Inr fresh \<Rightarrow>
          (case fill E fresh x of
             (Some e, d') \<Rightarrow> Inl e
           | (None, d') \<Rightarrow>
               (case fromData_list E c xs of
                  Inl e \<Rightarrow> Inl e
                | Inr ys \<Rightarrow> Inr (Inst d' # ys))))"
  by pat_completeness auto
termination
  by (relation "measure (\<lambda>x. case x of
          Inl (Inl (E, d, nv)) \<Rightarrow> 4 * size nv + 1
        | Inl (Inr (Inl (E, d, kvs))) \<Rightarrow> 4 * size_list (size_prod (\<lambda>_. 0) size) kvs
        | Inl (Inr (Inr (E, d, i, xs))) \<Rightarrow> 4 * size_list size xs
        | Inr (Inl (E, d, key, v)) \<Rightarrow> 4 * size v + 3
        | Inr (Inr (Inl (E, c, v))) \<Rightarrow> 4 * size v + 2
        | Inr (Inr (Inr (E, c, xs))) \<Rightarrow> 4 * size_list size xs)") auto

declare fill.simps [simp del] fill_entry.simps [simp del] fromData.simps [simp del]

section \<open>populate\<close>

text \<open>
  The keys of a \<^verbatim>\<open>Map\<close> are compared by \<^verbatim>\<open>SameValueZero\<close>: primitive values by value, objects
  by identity. An \<^verbatim>\<open>ObjectId\<close> and a function carry their identity; of the objects held by
  value, two occurrences are two objects.
\<close>

definition same_key :: "jsval \<Rightarrow> jsval \<Rightarrow> bool" where
  "same_key a b =
     (case a of
        ObjectId i h \<Rightarrow> (case b of ObjectId j g \<Rightarrow> i = j | _ \<Rightarrow> False)
      | DateV t \<Rightarrow> False
      | DeclV d \<Rightarrow> False
      | Arr xs ps \<Rightarrow> False
      | Obj kvs \<Rightarrow> False
      | Inst d \<Rightarrow> False
      | TypeV t \<Rightarrow> (case t of TArr ts \<Rightarrow> False | _ \<Rightarrow> a = b)
      | _ \<Rightarrow> a = b)"

text \<open>
  What one call of \<^verbatim>\<open>populate\<close> builds before it returns its promise: the cache, by type
  then id, of the promises of the loads; the calls of \<^verbatim>\<open>loadById\<close> made so far, whose
  positions name their promises; the \<^verbatim>\<open>then\<close>-callbacks in the order of their
  registration, each with the promise it waits for; and the documents, which are
  distinct objects, named by their positions in the input.
\<close>

datatype callback = PushTo nat string | AssignTo nat string

record pstate =
  cache :: "(jstype \<times> (jsval \<times> nat) list) list"
  loads :: "(jstype \<times> jsval) list"
  thens :: "(nat \<times> callback) list"
  documents :: "doc list"

definition loadFromCache :: "jstype \<Rightarrow> jsval \<Rightarrow> pstate \<Rightarrow> nat \<times> pstate" where
  "loadFromCache t i st =
     (let typeCache = (case map_of (cache st) t of None \<Rightarrow> [] | Some tc \<Rightarrow> tc)
      in case find (\<lambda>entry. same_key (fst entry) i) typeCache of
           Some entry \<Rightarrow> (snd entry, st\<lparr>cache := AList.update t typeCache (cache st)\<rparr>)
         | None \<Rightarrow>
             (length (loads st),
              st\<lparr>cache := AList.update t (typeCache @ [(i, length (loads st))]) (cache st),
                 loads := loads st @ [(t, i)]\<rparr>))"

text \<open>The key definitions, from the schema and the values of the first document:
  \<open>reference_array\<close> is the element type of a type that is a non-empty array of a class of
  documents, and the filter reads \<^verbatim>\<open>anInstance[key]\<close> for every other key.\<close>

definition reference_array :: "jstype \<Rightarrow> jstype option" where
  "reference_array t =
     (case t of TArr (u # us) \<Rightarrow> if isDocument u then Some u else None | _ \<Rightarrow> None)"

fun keyDefs ::
  "env \<Rightarrow> doc \<Rightarrow> (string \<times> jsval decl) list \<Rightarrow> error + (string \<times> jstype \<times> bool) list" where
  "keyDefs E anInstance [] = Inr []"
| "keyDefs E anInstance ((key, dc) # sch) =
     (case reference_array (dtype dc) of
        Some u \<Rightarrow>
          (case keyDefs E anInstance sch of
             Inl e \<Rightarrow> Inl e
           | Inr rest \<Rightarrow> Inr ((key, u, True) # rest))
      | None \<Rightarrow>
          (case proxy_get E anInstance key of
             Inl e \<Rightarrow> Inl e
           | Inr v \<Rightarrow>
               (case keyDefs E anInstance sch of
                  Inl e \<Rightarrow> Inl e
                | Inr rest \<Rightarrow>
                    Inr (if (isString v \<or> isNativeId E v) \<and> isDocument (dtype dc)
                         then (key, dtype dc, False) # rest
                         else rest))))"

text \<open>A change of the object that a read \<^verbatim>\<open>d[key]\<close> finds: in \<^verbatim>\<open>_values\<close>, under the alias
  \<^verbatim>\<open>id\<close>, or among the ordinary properties. What a getter returned or the prototype chain
  holds is no slot of the document.\<close>

definition modify_slot :: "env \<Rightarrow> doc \<Rightarrow> string \<Rightarrow> (jsval \<Rightarrow> error + jsval) \<Rightarrow> error + doc" where
  "modify_slot E d k f =
     (case map_of (vals d) k of
        Some v \<Rightarrow> (case f v of Inl e \<Rightarrow> Inl e | Inr w \<Rightarrow> Inr (set_value d k w))
      | None \<Rightarrow>
          if k \<in> set object_members
          then (case f (Builtin k) of Inl e \<Rightarrow> Inl e | Inr w \<Rightarrow> Inl Unmodelled)
          else if k = ''id''
          then (case f (read (vals d) ''_id'') of
                  Inl e \<Rightarrow> Inl e
                | Inr w \<Rightarrow> if ''_id'' \<in> fst ` set (vals d) then Inr (set_value d ''_id'' w)
                           else Inl Unmodelled)
          else (case map_of (props d) k of
                  Some v \<Rightarrow> (case f v of Inl e \<Rightarrow> Inl e | Inr w \<Rightarrow> Inr (set_prop d k w))
                | None \<Rightarrow>
                    (case reflect_get E d k of
                       Inl e \<Rightarrow> Inl e
                     | Inr v \<Rightarrow> (case f v of Inl e \<Rightarrow> Inl e | Inr w \<Rightarrow> Inl Unmodelled))))"

text \<open>\<^verbatim>\<open>array.idList = idList\<close> and \<^verbatim>\<open>array.push(data)\<close> on what was found.\<close>

definition set_idList :: "jsval \<Rightarrow> jsval \<Rightarrow> error + jsval" where
  "set_idList idList target =
     (case target of
        Arr xs ps \<Rightarrow> Inr (Arr xs (AList.update ''idList'' idList ps))
      | Obj kvs \<Rightarrow> Inr (Obj (AList.update ''idList'' idList kvs))
      | Undefined \<Rightarrow> Inl JsTypeError
      | Null \<Rightarrow> Inl JsTypeError
      | Bool b \<Rightarrow> Inl JsTypeError
      | Num x \<Rightarrow> Inl JsTypeError
      | Str s \<Rightarrow> Inl JsTypeError
      | _ \<Rightarrow> Inl Unmodelled)"

definition push :: "jsval \<Rightarrow> jsval \<Rightarrow> error + jsval" where
  "push data target =
     (case target of
        Arr xs ps \<Rightarrow> Inr (Arr (xs @ [data]) ps)
      | _ \<Rightarrow> Inl JsTypeError)"

text \<open>\<^verbatim>\<open>idList.forEach\<close>: a load, from the cache or new, and a callback for each id.\<close>

fun load_ids :: "jstype \<Rightarrow> nat \<Rightarrow> string \<Rightarrow> jsval list \<Rightarrow> pstate \<Rightarrow> pstate" where
  "load_ids t n key [] st = st"
| "load_ids t n key (i # ids) st =
     (case loadFromCache t i st of
        (p, st') \<Rightarrow> load_ids t n key ids (st'\<lparr>thens := thens st' @ [(p, PushTo n key)]\<rparr>))"

text \<open>The body of \<^verbatim>\<open>documents.forEach\<close> for the document at position \<open>n\<close>. The new empty
  array is written through the proxy and read back for its \<^verbatim>\<open>idList\<close>; the read finds the
  array just written when the key is in the document's schema or not in its values.\<close>

definition visit :: "env \<Rightarrow> string \<times> jstype \<times> bool \<Rightarrow> nat \<Rightarrow> pstate \<Rightarrow> error + pstate" where
  "visit E keyDef n st =
     (case keyDef of (key, t, isArr) \<Rightarrow>
        (let d = documents st ! n in
         case proxy_get E d key of
           Inl e \<Rightarrow> Inl e
         | Inr v \<Rightarrow>
             if isArr \<and> truthy v
             then (case v of
                     Arr ids ps \<Rightarrow>
                       (let st1 = load_ids t n key ids st in
                        if key \<in> fst ` set (vals d) \<and> \<not> has_key (schema d) key then Inl Unmodelled
                        else (case proxy_set E d key (Arr [] []) of
                                Inl e \<Rightarrow> Inl e
                              | Inr d1 \<Rightarrow>
                                  (case modify_slot E d1 key (set_idList (Arr ids ps)) of
                                     Inl e \<Rightarrow> Inl e
                                   | Inr d2 \<Rightarrow> Inr (st1\<lparr>documents := (documents st1)[n := d2]\<rparr>))))
                   | _ \<Rightarrow> Inl JsTypeError)
             else (case loadFromCache t v st of
                     (p, st') \<Rightarrow> Inr (st'\<lparr>thens := thens st' @ [(p, AssignTo n key)]\<rparr>))))"

fun visit_documents ::
  "env \<Rightarrow> string \<times> jstype \<times> bool \<Rightarrow> nat list \<Rightarrow> pstate \<Rightarrow> error + pstate" where
  "visit_documents E keyDef [] st = Inr st"
| "visit_documents E keyDef (n # ns) st =
     (case visit E keyDef n st of Inl e \<Rightarrow> Inl e | Inr st' \<Rightarrow> visit_documents E keyDef ns st')"

fun visit_keyDefs :: "env \<Rightarrow> (string \<times> jstype \<times> bool) list \<Rightarrow> pstate \<Rightarrow> error + pstate" where
  "visit_keyDefs E [] st = Inr st"
| "visit_keyDefs E (keyDef # rest) st =
     (case visit_documents E keyDef [0..<length (documents st)] st of
        Inl e \<Rightarrow> Inl e
      | Inr st' \<Rightarrow> visit_keyDefs E rest st')"

text \<open>The synchronous part of \<^verbatim>\<open>populate(docs)\<close> for a non-empty array of documents; an
  exception here is thrown to the caller.\<close>

definition issue_loads :: "env \<Rightarrow> doc list \<Rightarrow> error + pstate" where
  "issue_loads E docs =
     (case docs of
        [] \<Rightarrow> Inr \<lparr>cache = [], loads = [], thens = [], documents = []\<rparr>
      | anInstance # others \<Rightarrow>
          (case keyDefs E anInstance (schema anInstance) of
             Inl e \<Rightarrow> Inl e
           | Inr defs \<Rightarrow>
               visit_keyDefs E defs \<lparr>cache = [], loads = [], thens = [], documents = docs\<rparr>))"

text \<open>
  The asynchronous part. The backend settles the loads in an order of its own, the
  schedule, which lists promises by their positions. A fulfilled load runs the callbacks
  registered on its promise, in the order of their registration; a rejected one runs
  none. \<^verbatim>\<open>Promise.all\<close> rejects with the first rejection, of a load or of a callback that
  threw, is fulfilled with the documents when every load has been fulfilled, and stays
  pending while a load is outstanding.
\<close>

datatype outcome = Resolved | Rejected error | Pending

definition run_callback :: "env \<Rightarrow> callback \<Rightarrow> jsval \<Rightarrow> doc list \<Rightarrow> error + doc list" where
  "run_callback E cb data ds =
     (case cb of
        PushTo n key \<Rightarrow>
          (case modify_slot E (ds ! n) key (push data) of
             Inl e \<Rightarrow> Inl e
           | Inr d \<Rightarrow> Inr (ds[n := d]))
      | AssignTo n key \<Rightarrow>
          (case proxy_set E (ds ! n) key data of
             Inl e \<Rightarrow> Inl e
           | Inr d \<Rightarrow> Inr (ds[n := d])))"

fun run_callbacks ::
  "env \<Rightarrow> nat \<Rightarrow> jsval \<Rightarrow> (nat \<times> callback) list \<Rightarrow> error option \<times> doc list
     \<Rightarrow> error option \<times> doc list" where
  "run_callbacks E p data [] acc = acc"
| "run_callbacks E p data ((q, cb) # rest) (rej, ds) =
     (if q = p
      then (case run_callback E cb data ds of
              Inl e \<Rightarrow> run_callbacks E p data rest (case rej of None \<Rightarrow> Some e | Some e0 \<Rightarrow> Some e0, ds)
            | Inr ds' \<Rightarrow> run_callbacks E p data rest (rej, ds'))
      else run_callbacks E p data rest (rej, ds))"

fun settle ::
  "env \<Rightarrow> pstate \<Rightarrow> nat list \<Rightarrow> nat list \<Rightarrow> error option \<times> doc list
     \<Rightarrow> nat list \<times> error option \<times> doc list" where
  "settle E st [] settled acc = (settled, acc)"
| "settle E st (p # sched) settled (rej, ds) =
     (if p \<in> set settled \<or> length (loads st) \<le> p then settle E st sched settled (rej, ds)
      else (case loadById E (fst (loads st ! p)) (snd (loads st ! p)) of
              Inl e \<Rightarrow>
                settle E st sched (p # settled)
                  (case rej of None \<Rightarrow> Some e | Some e0 \<Rightarrow> Some e0, ds)
            | Inr data \<Rightarrow>
                settle E st sched (p # settled) (run_callbacks E p data (thens st) (rej, ds))))"

definition populate :: "env \<Rightarrow> doc list \<Rightarrow> nat list \<Rightarrow> error + outcome \<times> doc list" where
  "populate E docs sched =
     (case issue_loads E docs of
        Inl e \<Rightarrow> Inl e
      | Inr st \<Rightarrow>
          (case settle E st sched [] (None, documents st) of
             (settled, rej, ds) \<Rightarrow>
               Inr (case rej of
                      Some e \<Rightarrow> Rejected e
                    | None \<Rightarrow> if list_all (\<lambda>p. p \<in> set settled) [0..<length (loads st)]
                              then Resolved else Pending,
                    ds)))"

text \<open>
  What the cache is for, as a property of the state: every call made so far is in the
  cache of its type under its id, and no two calls have the same type and ids that are
  the same key.
\<close>

definition deduplicated :: "pstate \<Rightarrow> bool" where
  "deduplicated st =
     ((\<forall>p < length (loads st).
         \<exists>tc. map_of (cache st) (fst (loads st ! p)) = Some tc \<and> (snd (loads st ! p), p) \<in> set tc)
      \<and> (\<forall>q < length (loads st). \<forall>p < q.
           fst (loads st ! p) = fst (loads st ! q)
           \<longrightarrow> \<not> same_key (snd (loads st ! p)) (snd (loads st ! q))))"

section \<open>An environment and documents for the examples\<close>

text \<open>Modelled from the spec: \<^verbatim>\<open>isSupportedType\<close>, \<^verbatim>\<open>isValidType\<close> and \<^verbatim>\<open>isInChoices\<close> of
  \<^verbatim>\<open>./validate\<close>, which is not among the sources. The supported types are the primitive
  kinds, the document classes and the arrays of one of these; \<^verbatim>\<open>null\<close> and \<^verbatim>\<open>undefined\<close>
  are valid for every type, an array is valid when each element is of the element type,
  and a field without choices admits every value. A date field admits a numeric time
  stamp, which \<^verbatim>\<open>canonicalize\<close> turns into a date.\<close>

definition spec_isSupportedType :: "jstype \<Rightarrow> bool" where
  "spec_isSupportedType t =
     (let kind_or_class = (\<lambda>u. case u of
                             TArr ts \<Rightarrow> False
                           | TNativeId \<Rightarrow> False
                           | TClass k c \<Rightarrow> k \<noteq> KBase
                           | _ \<Rightarrow> True)
      in case t of TArr ts \<Rightarrow> (case ts of [u] \<Rightarrow> kind_or_class u | _ \<Rightarrow> False)
         | _ \<Rightarrow> kind_or_class t)"

definition spec_isType :: "(jsval \<Rightarrow> bool) \<Rightarrow> jsval \<Rightarrow> jstype \<Rightarrow> bool" where
  "spec_isType nid v t =
     (case t of
        TString \<Rightarrow> isString v
      | TNumber \<Rightarrow> isNumber v
      | TBoolean \<Rightarrow> (case v of Bool b \<Rightarrow> True | _ \<Rightarrow> False)
      | TDate \<Rightarrow> (case v of DateV d \<Rightarrow> True | Num x \<Rightarrow> True | _ \<Rightarrow> False)
      | TBuffer \<Rightarrow> False
      | TNativeId \<Rightarrow> nid v
      | TClass k c \<Rightarrow>
          (case k of
             KBase \<Rightarrow> False
           | KDocument \<Rightarrow> (case v of Inst d \<Rightarrow> kind d = KDocument | _ \<Rightarrow> nid v)
           | KEmbedded \<Rightarrow> (case v of Inst d \<Rightarrow> kind d = KEmbedded | _ \<Rightarrow> False))
      | TArr ts \<Rightarrow> False)"

definition spec_isValidType :: "(jsval \<Rightarrow> bool) \<Rightarrow> jsval \<Rightarrow> jstype \<Rightarrow> bool" where
  "spec_isValidType nid v t =
     (v = Null \<or> v = Undefined \<or>
      (case t of
         TArr ts \<Rightarrow>
           (case v of
              Arr xs ps \<Rightarrow> (case ts of [u] \<Rightarrow> list_all (\<lambda>x. spec_isType nid x u) xs | _ \<Rightarrow> True)
            | _ \<Rightarrow> False)
       | _ \<Rightarrow> spec_isType nid v t))"

definition spec_isInChoices :: "jsval list option \<Rightarrow> jsval \<Rightarrow> bool" where
  "spec_isInChoices choices v = (case choices of None \<Rightarrow> True | Some cs \<Rightarrow> v \<in> set cs)"

text \<open>\<^verbatim>\<open>isNativeId\<close> of the Mongo client, \<^verbatim>\<open>value instanceof ObjectId ||
  String(value).match(/^[a-fA-F0-9]{24}$/)\<close>. The string form of a string is itself, that
  of an object id its 24 hexadecimal digits, that of an array its elements' forms joined
  by commas (so that only an array of one element can match); the string form of a value
  of another kind (\<^verbatim>\<open>'null'\<close>, \<^verbatim>\<open>'true'\<close>, a number, \<^verbatim>\<open>'[object Object]'\<close>, a date or the text
  of a function) is never 24 hexadecimal digits.\<close>

definition is_hex24 :: "string \<Rightarrow> bool" where
  "is_hex24 s = (length s = 24 \<and> list_all (\<lambda>c. c \<in> set ''0123456789abcdefABCDEF'') s)"

fun string_matches :: "jsval \<Rightarrow> bool" where
  "string_matches (Str s) = is_hex24 s"
| "string_matches (ObjectId a h) = is_hex24 h"
| "string_matches (Arr [x] ps) = string_matches x"
| "string_matches v = False"

fun mongo_isNativeId :: "jsval \<Rightarrow> bool" where
  "mongo_isNativeId (ObjectId a h) = True"
| "mongo_isNativeId v = string_matches v"

text \<open>The one pattern, the one validator and the classes of the examples: the pattern
  \<^verbatim>\<open>/^[0-9]+$/\<close>, and the function \<open>Fn 0\<close>, which is \<^verbatim>\<open>function(v) { return v !== 13; }\<close>.\<close>

definition example_regexTest :: "string \<Rightarrow> string \<Rightarrow> bool" where
  "example_regexTest r s =
     (if r = ''^[0-9]+$'' then s \<noteq> [] \<and> list_all (\<lambda>c. c \<in> set ''0123456789'') s else True)"

definition example_callFn :: "jsval \<Rightarrow> jsval list \<Rightarrow> jsval" where
  "example_callFn f args =
     (case f of
        Fn n \<Rightarrow> (if n = 0 then (case args of [v] \<Rightarrow> Bool (v \<noteq> Num 13) | _ \<Rightarrow> Undefined) else Undefined)
      | _ \<Rightarrow> Undefined)"

text \<open>The getters of the examples: \<open>0\<close> is
  \<^verbatim>\<open>get initials() { return isString(this.name) ? this.name.slice(0, 1) : '?'; }\<close>, and every
  other one is \<^verbatim>\<open>get size() { return this.name.length; }\<close>, which throws on a document
  whose name is \<^verbatim>\<open>undefined\<close> or \<^verbatim>\<open>null\<close>.\<close>

definition example_getter :: "nat \<Rightarrow> doc \<Rightarrow> error + jsval" where
  "example_getter n d =
     (if n = 0
      then (case read (vals d) ''name'' of Str s \<Rightarrow> Inr (Str (take 1 s)) | _ \<Rightarrow> Inr (Str ''?''))
      else (case read (vals d) ''name'' of
              Str s \<Rightarrow> Inr (Num (real (length s)))
            | Undefined \<Rightarrow> Inl JsTypeError
            | Null \<Rightarrow> Inl JsTypeError
            | Arr xs ps \<Rightarrow> Inr (Num (real (length xs)))
            | Obj kvs \<Rightarrow> Inr (read kvs ''length'')
            | _ \<Rightarrow> Inr Undefined))"

definition id_decl :: "jsval decl" where
  "id_decl = Decl TNativeId None None None None None None False"

text \<open>The class \<^verbatim>\<open>User\<close>: a name, an array of tags, a private field \<^verbatim>\<open>secret\<close> with the
  default \<^verbatim>\<open>'x'\<close>, a helper property that is not persisted, and on its prototype a method
  that is called \<^verbatim>\<open>secret\<close> too and the getter \<^verbatim>\<open>initials\<close>.\<close>

definition secret_decl :: "jsval decl" where
  "secret_decl = Decl TString (Some (Str ''x'')) None None None None None True"

definition new_User :: doc where
  "new_User =
     Instance KDocument (Some ''users'') [(''_id'', id_decl)] []
       [(''name'', TypeV TString), (''tags'', TypeV (TArr [TString])),
        (''secret'', DeclV secret_decl), (''_cache'', Num 0)]
       [(''constructor'', Data (TypeV (TClass KDocument ''User''))), (''secret'', Data (Fn 1)),
        (''initials'', Accessor (Some 0) None)]"

text \<open>The document that \<^verbatim>\<open>User.create()\<close> returns.\<close>

definition created_User :: doc where
  "created_User =
     Instance KDocument (Some ''users'')
       [(''_id'', id_decl),
        (''name'', Decl TString None None None None None None False),
        (''tags'', Decl (TArr [TString]) None None None None None None False),
        (''secret'', secret_decl)]
       [(''name'', Undefined), (''tags'', Arr [] []), (''secret'', Str ''x'')]
       [(''name'', TypeV TString), (''tags'', TypeV (TArr [TString])),
        (''secret'', DeclV secret_decl), (''_cache'', Num 0)]
       [(''constructor'', Data (TypeV (TClass KDocument ''User''))), (''secret'', Data (Fn 1)),
        (''initials'', Accessor (Some 0) None)]"

definition example_construct :: "string \<Rightarrow> doc" where
  "example_construct c =
     (if c = ''User'' then new_User
      else Instance KDocument (Some c) [(''_id'', id_decl)] [] [] [])"

text \<open>The documents of the backend: under every id, for every type, a document that
  carries the id (the hex value of an \<^verbatim>\<open>ObjectId\<close>) as its \<^verbatim>\<open>_id\<close> and its label.\<close>

definition stored :: "string \<Rightarrow> doc" where
  "stored i =
     Instance KDocument (Some ''stored'')
       [(''_id'', id_decl), (''label'', Decl TString None None None None None None False)]
       [(''_id'', Str i), (''label'', Str i)] [] []"

definition example_loadById :: "jstype \<Rightarrow> jsval \<Rightarrow> error + jsval" where
  "example_loadById t i =
     (case i of
        Str s \<Rightarrow> Inr (Inst (stored s))
      | ObjectId a h \<Rightarrow> Inr (Inst (stored h))
      | _ \<Rightarrow> Inr Null)"

text \<open>A post with an array of references to tags and a reference to its author.\<close>

definition blog_post :: "jsval \<Rightarrow> jsval \<Rightarrow> doc" where
  "blog_post tags author =
     Instance KDocument (Some ''posts'')
       [(''_id'', id_decl),
        (''tags'', Decl (TArr [TClass KDocument ''Tag'']) None None None None None None False),
        (''author'', Decl (TClass KDocument ''User'') None None None None None None False)]
       [(''tags'', tags), (''author'', author)] [] []"

definition example_env :: env where
  "example_env =
     \<lparr> isSupportedType = spec_isSupportedType,
       isValidType = spec_isValidType mongo_isNativeId,
       isValidUntyped = (\<lambda>v. v = Null \<or> v = Undefined),
       isInChoices = spec_isInChoices,
       isNativeId = mongo_isNativeId,
       toNativeId = (\<lambda>v. v),
       regexTest = example_regexTest,
       callFn = example_callFn,
       stringToNumber = (\<lambda>s. None),
       objectToNumber = (\<lambda>v. None),
       construct = example_construct,
       loadById = example_loadById,
       getter = example_getter,
       setter = (\<lambda>n d v. Inr d) \<rparr>"

text \<open>A document of a model \<^verbatim>\<open>{num: d}\<close> in the collection \<^verbatim>\<open>numbers\<close>, holding \<open>v\<close>.\<close>

definition num_doc :: "jsval decl \<Rightarrow> jsval \<Rightarrow> doc" where
  "num_doc d v =
     Instance KDocument (Some ''numbers'') [(''_id'', id_decl), (''num'', d)] [(''num'', v)]
       [(''num'', DeclV d)] []"

definition number_decl :: "real option \<Rightarrow> real option \<Rightarrow> jsval decl" where
  "number_decl lo hi = Decl TNumber None None lo hi None None False"

text \<open>The embedded model \<^verbatim>\<open>{num: {type: Number, max: 10}}\<close> of the tests, and a document
  holding an instance of it under \<^verbatim>\<open>emb\<close>, whose own declaration \<open>d\<close> is left open.\<close>

definition embedded_model :: "jsval \<Rightarrow> doc" where
  "embedded_model v =
     Instance KEmbedded None [(''num'', number_decl None (Some 10))] [(''num'', v)]
       [(''num'', DeclV (number_decl None (Some 10)))] []"

definition document_model :: "jsval decl \<Rightarrow> jsval \<Rightarrow> doc" where
  "document_model d v =
     Instance KDocument (Some ''documentmodel'') [(''_id'', id_decl), (''emb'', d)]
       [(''emb'', v)] [(''emb'', DeclV d)] []"

text \<open>A declaration with choices, a lower bound and the validator \<open>Fn 0\<close>.\<close>

definition busy_decl :: "jsval decl" where
  "busy_decl = Decl TNumber None (Some [Num 1, Num 2]) (Some 20) None None (Some (Fn 0)) False"

text \<open>An event with a time stamp and an embedded place that has a time stamp of its own.\<close>

definition date_decl :: "jsval decl" where
  "date_decl = Decl TDate None None None None None None False"

definition place :: "jsval \<Rightarrow> doc" where
  "place v = Instance KEmbedded None [(''since'', date_decl)] [(''since'', v)] [] []"

definition event :: "jsval \<Rightarrow> jsval \<Rightarrow> doc" where
  "event t v =
     Instance KDocument (Some ''events'')
       [(''_id'', id_decl), (''at'', date_decl),
        (''place'', Decl (TClass KEmbedded ''Place'') None None None None None None False)]
       [(''at'', t), (''place'', Inst (place v))] [] []"

text \<open>What a populated array field holds: the ids of its elements in their order, and the
  id list kept on the array.\<close>

definition id_of :: "jsval \<Rightarrow> jsval" where
  "id_of v = (case v of Inst d \<Rightarrow> read (vals d) ''_id'' | _ \<Rightarrow> Undefined)"

definition element_ids :: "doc \<Rightarrow> string \<Rightarrow> jsval list" where
  "element_ids d key = (case read (vals d) key of Arr xs ps \<Rightarrow> map id_of xs | _ \<Rightarrow> [])"

definition idList :: "doc \<Rightarrow> string \<Rightarrow> jsval" where
  "idList d key =
     (case read (vals d) key of
        Arr xs ps \<Rightarrow> read ps ''idList''
      | _ \<Rightarrow> Undefined)"

text \<open>The number of calls of \<^verbatim>\<open>loadById\<close> that one \<^verbatim>\<open>populate\<close> makes.\<close>

definition backend_calls :: "env \<Rightarrow> doc list \<Rightarrow> (jstype \<times> jsval) list" where
  "backend_calls E docs = (case issue_loads E docs of Inl e \<Rightarrow> [] | Inr st \<Rightarrow> loads st)"


section \<open>Properties of validate\<close>

lemma validate_values_append:
  "validate_values E m sch (pre @ post) =
     (case validate_values E m sch pre of Inl e \<Rightarrow> Inl e | Inr u \<Rightarrow> validate_values E m sch post)"
  by (induction pre) (auto split: sum.splits bool.splits)

lemma validate_field_schema:
  "map_of sch key = map_of sch' key \<Longrightarrow> validate_field E m sch key v = validate_field E m sch' key v"
  by (simp add: validate_field_def)

lemma validate_values_schema:
  "(\<And>k v. (k, v) \<in> set vs \<Longrightarrow> is_embedded E v = Inr False \<Longrightarrow> map_of sch k = map_of sch' k)
   \<Longrightarrow> validate_values E m sch vs = validate_values E m sch' vs"
proof (induction vs)
  case Nil
  show ?case by simp
next
  case (Cons p vs)
  obtain key v where p: "p = (key, v)" by (cases p)
  have rest: "validate_values E m sch vs = validate_values E m sch' vs"
    using Cons.prems by (intro Cons.IH) auto
  show ?case
  proof (cases "is_embedded E v = Inr False")
    case True
    then have "map_of sch key = map_of sch' key" using Cons.prems p by auto
    then have "validate_field E m sch key v = validate_field E m sch' key v"
      by (rule validate_field_schema)
    with True p show ?thesis by (simp add: rest split: sum.splits)
  next
    case False
    with p show ?thesis by (auto simp: rest split: sum.splits bool.splits)
  qed
qed

lemma check_type_eq:
  "check_type E m key d v =
     (if \<not> isValidType E v (dtype d)
      then Inl (case typeName (dtype d) of
                  Inl e \<Rightarrow> e
                | Inr tn \<Rightarrow> message m (\<lambda>c. WrongType c key tn (valueName v)))
      else Inr ())"
  by (simp add: check_type_def throw_def split: sum.splits)

lemma check_match_eq:
  "check_match E m key d v =
     (if \<exists>r s. dmatch d = Some r \<and> v = Str s \<and> \<not> regexTest E r s
      then Inl (message m (\<lambda>c. NoMatch c key (the (dmatch d)) v)) else Inr ())"
  by (cases "dmatch d"; cases v) (simp_all add: check_match_def throw_def)

lemma check_choices_eq:
  "check_choices E m key d v =
     (if \<not> isInChoices E (dchoices d) v
      then Inl (message m (\<lambda>c. case dchoices d of
                                   None \<Rightarrow> JsTypeError
                                 | Some cs \<Rightarrow> NotInChoices c key cs v))
      else Inr ())"
  by (simp add: check_choices_def throw_def)

lemma check_min_eq:
  "check_min E m key d v =
     (if \<exists>b. dmin d = Some b \<and> b \<noteq> 0 \<and> js_lt E v b
      then Inl (message m (\<lambda>c. LessThanMin c key (the (dmin d)) v)) else Inr ())"
  by (cases "dmin d") (simp_all add: check_min_def throw_def)

lemma check_max_eq:
  "check_max E m key d v =
     (if \<exists>b. dmax d = Some b \<and> b \<noteq> 0 \<and> js_gt E v b
      then Inl (message m (\<lambda>c. GreaterThanMax c key (the (dmax d)) v)) else Inr ())"
  by (cases "dmax d") (simp_all add: check_max_def throw_def)

lemma check_custom_eq:
  "check_custom E m key d v =
     (if \<exists>f. dvalidate d = Some f \<and> typeof f = ''function'' \<and> \<not> truthy (callFn E f [v])
      then Inl (message m (\<lambda>c. CustomFailed c key v)) else Inr ())"
  by (cases "dvalidate d") (simp_all add: check_custom_def throw_def)

lemma first_error_if:
  "first_error ((if P then Inl e else Inr ()) # rs) = (if P then Inl e else first_error rs)"
  by simp

lemma validate_field_cascade:
  assumes "map_of sch key = Some d"
  shows "validate_field E m sch key v =
     (if \<not> isValidType E v (dtype d)
      then Inl (case typeName (dtype d) of
                  Inl e \<Rightarrow> e
                | Inr tn \<Rightarrow> message m (\<lambda>c. WrongType c key tn (valueName v)))
      else if \<exists>r s. dmatch d = Some r \<and> v = Str s \<and> \<not> regexTest E r s
      then Inl (message m (\<lambda>c. NoMatch c key (the (dmatch d)) v))
      else if \<not> isInChoices E (dchoices d) v
      then Inl (message m (\<lambda>c. case dchoices d of
                                   None \<Rightarrow> JsTypeError
                                 | Some cs \<Rightarrow> NotInChoices c key cs v))
      else if \<exists>b. dmin d = Some b \<and> b \<noteq> 0 \<and> js_lt E v b
      then Inl (message m (\<lambda>c. LessThanMin c key (the (dmin d)) v))
      else if \<exists>b. dmax d = Some b \<and> b \<noteq> 0 \<and> js_gt E v b
      then Inl (message m (\<lambda>c. GreaterThanMax c key (the (dmax d)) v))
      else if \<exists>f. dvalidate d = Some f \<and> typeof f = ''function'' \<and> \<not> truthy (callFn E f [v])
      then Inl (message m (\<lambda>c. CustomFailed c key v))
      else Inr ())"
  unfolding validate_field_def assms option.case
    check_type_eq check_match_eq check_choices_eq check_min_eq check_max_eq check_custom_eq
    first_error_if first_error.simps
  by (rule refl)

lemma validate_values_step:
  "validate_values E m sch (pre @ (key, v) # post) =
     (case validate_values E m sch pre of
        Inl x \<Rightarrow> Inl x
      | Inr u \<Rightarrow> validate_values E m sch ((key, v) # post))"
  by (rule validate_values_append)

lemma case_if_Inl:
  "(case (if P then Inl a else r) of Inl e \<Rightarrow> Inl e | Inr u \<Rightarrow> K) =
     (if P then Inl a else (case r of Inl e \<Rightarrow> Inl e | Inr u \<Rightarrow> K))"
  by simp

lemma validate_values_cascade:
  assumes before: "validate_values E m sch pre = Inr ()"
    and plain: "is_embedded E v = Inr False"
    and declared: "map_of sch key = Some d"
  shows "validate_values E m sch (pre @ (key, v) # post) =
     (if \<not> isValidType E v (dtype d)
      then Inl (case typeName (dtype d) of
                  Inl e \<Rightarrow> e
                | Inr tn \<Rightarrow> message m (\<lambda>c. WrongType c key tn (valueName v)))
      else if \<exists>r s. dmatch d = Some r \<and> v = Str s \<and> \<not> regexTest E r s
      then Inl (message m (\<lambda>c. NoMatch c key (the (dmatch d)) v))
      else if \<not> isInChoices E (dchoices d) v
      then Inl (message m (\<lambda>c. case dchoices d of
                                   None \<Rightarrow> JsTypeError
                                 | Some cs \<Rightarrow> NotInChoices c key cs v))
      else if \<exists>b. dmin d = Some b \<and> b \<noteq> 0 \<and> js_lt E v b
      then Inl (message m (\<lambda>c. LessThanMin c key (the (dmin d)) v))
      else if \<exists>b. dmax d = Some b \<and> b \<noteq> 0 \<and> js_gt E v b
      then Inl (message m (\<lambda>c. GreaterThanMax c key (the (dmax d)) v))
      else if \<exists>f. dvalidate d = Some f \<and> typeof f = ''function'' \<and> \<not> truthy (callFn E f [v])
      then Inl (message m (\<lambda>c. CustomFailed c key v))
      else validate_values E m sch post)"
proof -
  have "validate_values E m sch (pre @ (key, v) # post) =
        (case validate_field E m sch key v of
           Inl e \<Rightarrow> Inl e
         | Inr u \<Rightarrow> validate_values E m sch post)"
    using before plain by (simp add: validate_values_step)
  then show ?thesis
    unfolding validate_field_cascade [OF declared] by (simp only: case_if_Inl sum.case)
qed

lemma embedded_keys_apart:
  assumes "distinct (map fst vs)" and "(key, w) \<in> set vs" and "is_embedded E w = Inr True"
    and "(k', v') \<in> set vs" and "is_embedded E v' = Inr False"
  shows "k' \<noteq> key"
proof
  assume "k' = key"
  with assms(1,2,4) have "v' = w" by (auto dest: eq_key_imp_eq_value)
  with assms(3,5) show False by simp
qed

text \<open>
  Claim C7. A value of the values map that is an embedded document (its
  \<^verbatim>\<open>documentClass()\<close> says \<^verbatim>\<open>'embedded'\<close>) is validated by calling its own \<^verbatim>\<open>validate()\<close>: the
  pass over the fields before it, then the call on the value, then the fields after it.
  On an instance that inherits \<^verbatim>\<open>validate\<close> the call is the pass over the instance's own
  values against the instance's own schema, so the checks that decide are those of the
  embedded document: when the fields before the embedded one pass, the outcome of the
  parent is the error of the first failing check (type, pattern, choices, minimum,
  maximum, validator) of the first field of the embedded document that fails, named by
  the embedded document's key, declaration and collection, and only when the embedded
  document passes does the parent go on to its later fields. None of the parent's
  checks runs for the field that holds the embedded document: the outcome is the same
  whatever the parent's schema declares for the key, and the same when it declares
  nothing.
\<close>

theorem validate_embedded:
  assumes emb: "is_embedded E v = Inr True"
    and keys: "distinct (map fst (pre @ (key, v) # post))"
  shows "validate_values E m sch (pre @ (key, v) # post) =
           (case validate_values E m sch pre of
              Inl x \<Rightarrow> Inl x
            | Inr u \<Rightarrow> (case invoke_validate E v of
                          Inl x \<Rightarrow> Inl x
                        | Inr u \<Rightarrow> validate_values E m sch post))
         \<and> (\<forall>e. v = Inst e \<longrightarrow> member E e ''validate'' = Inr None \<longrightarrow>
                invoke_validate E v = validate_values E (meta e) (schema e) (vals e))
         \<and> (\<forall>e pre' key' w post' d'.
               v = Inst e \<longrightarrow> member E e ''validate'' = Inr None \<longrightarrow>
               validate_values E m sch pre = Inr () \<longrightarrow>
               vals e = pre' @ (key', w) # post' \<longrightarrow>
               validate_values E (meta e) (schema e) pre' = Inr () \<longrightarrow>
               is_embedded E w = Inr False \<longrightarrow>
               map_of (schema e) key' = Some d' \<longrightarrow>
               validate E (Instance k m sch (pre @ (key, v) # post) ps pr) =
                 (if \<not> isValidType E w (dtype d')
                  then Inl (case typeName (dtype d') of
                              Inl x \<Rightarrow> x
                            | Inr tn \<Rightarrow> message (meta e) (\<lambda>c. WrongType c key' tn (valueName w)))
                  else if \<exists>r s. dmatch d' = Some r \<and> w = Str s \<and> \<not> regexTest E r s
                  then Inl (message (meta e) (\<lambda>c. NoMatch c key' (the (dmatch d')) w))
                  else if \<not> isInChoices E (dchoices d') w
                  then Inl (message (meta e) (\<lambda>c. case dchoices d' of
                                                      None \<Rightarrow> JsTypeError
                                                    | Some cs \<Rightarrow> NotInChoices c key' cs w))
                  else if \<exists>b. dmin d' = Some b \<and> b \<noteq> 0 \<and> js_lt E w b
                  then Inl (message (meta e) (\<lambda>c. LessThanMin c key' (the (dmin d')) w))
                  else if \<exists>b. dmax d' = Some b \<and> b \<noteq> 0 \<and> js_gt E w b
                  then Inl (message (meta e) (\<lambda>c. GreaterThanMax c key' (the (dmax d')) w))
                  else if \<exists>f. dvalidate d' = Some f \<and> typeof f = ''function''
                              \<and> \<not> truthy (callFn E f [w])
                  then Inl (message (meta e) (\<lambda>c. CustomFailed c key' w))
                  else (case validate_values E (meta e) (schema e) post' of
                          Inl x \<Rightarrow> Inl x
                        | Inr u \<Rightarrow> validate_values E m sch post)))
         \<and> validate E (Instance k m (AList.update key d sch) (pre @ (key, v) # post) ps pr) =
           validate E (Instance k m sch (pre @ (key, v) # post) ps pr)
         \<and> validate E (Instance k m (AList.delete key sch) (pre @ (key, v) # post) ps pr) =
           validate E (Instance k m sch (pre @ (key, v) # post) ps pr)"
proof -
  let ?vs = "pre @ (key, v) # post"
  have here: "(key, v) \<in> set ?vs" by simp
  have apart: "k' \<noteq> key" if "(k', v') \<in> set ?vs" and "is_embedded E v' = Inr False" for k' v'
    using embedded_keys_apart [OF keys here emb that] .
  have one: "validate_values E m sch ?vs =
           (case validate_values E m sch pre of
              Inl x \<Rightarrow> Inl x
            | Inr u \<Rightarrow> (case invoke_validate E v of
                          Inl x \<Rightarrow> Inl x
                        | Inr u \<Rightarrow> validate_values E m sch post))"
    unfolding validate_values_step using emb
    by (simp del: invoke_validate.simps split: sum.splits)
  have own: "invoke_validate E (Inst e) = validate_values E (meta e) (schema e) (vals e)"
    if "member E e ''validate'' = Inr None" for e
    using that by (cases e) simp
  have deep: "validate E (Instance k m sch ?vs ps pr) =
                 (if \<not> isValidType E w (dtype d')
                  then Inl (case typeName (dtype d') of
                              Inl x \<Rightarrow> x
                            | Inr tn \<Rightarrow> message (meta e) (\<lambda>c. WrongType c key' tn (valueName w)))
                  else if \<exists>r s. dmatch d' = Some r \<and> w = Str s \<and> \<not> regexTest E r s
                  then Inl (message (meta e) (\<lambda>c. NoMatch c key' (the (dmatch d')) w))
                  else if \<not> isInChoices E (dchoices d') w
                  then Inl (message (meta e) (\<lambda>c. case dchoices d' of
                                                      None \<Rightarrow> JsTypeError
                                                    | Some cs \<Rightarrow> NotInChoices c key' cs w))
                  else if \<exists>b. dmin d' = Some b \<and> b \<noteq> 0 \<and> js_lt E w b
                  then Inl (message (meta e) (\<lambda>c. LessThanMin c key' (the (dmin d')) w))
                  else if \<exists>b. dmax d' = Some b \<and> b \<noteq> 0 \<and> js_gt E w b
                  then Inl (message (meta e) (\<lambda>c. GreaterThanMax c key' (the (dmax d')) w))
                  else if \<exists>f. dvalidate d' = Some f \<and> typeof f = ''function''
                              \<and> \<not> truthy (callFn E f [w])
                  then Inl (message (meta e) (\<lambda>c. CustomFailed c key' w))
                  else (case validate_values E (meta e) (schema e) post' of
                          Inl x \<Rightarrow> Inl x
                        | Inr u \<Rightarrow> validate_values E m sch post))"
    if v: "v = Inst e" and inherited: "member E e ''validate'' = Inr None"
      and before: "validate_values E m sch pre = Inr ()"
      and inner: "vals e = pre' @ (key', w) # post'"
      and before': "validate_values E (meta e) (schema e) pre' = Inr ()"
      and plain: "is_embedded E w = Inr False"
      and declared: "map_of (schema e) key' = Some d'"
    for e pre' key' w post' d'
  proof -
    have call: "invoke_validate E v =
                validate_values E (meta e) (schema e) (pre' @ (key', w) # post')"
      unfolding v own [OF inherited] inner by (rule refl)
    have "validate E (Instance k m sch ?vs ps pr) =
          (case invoke_validate E v of
             Inl x \<Rightarrow> Inl x
           | Inr u \<Rightarrow> validate_values E m sch post)"
      by (simp only: validate.simps one before sum.case)
    then have "validate E (Instance k m sch ?vs ps pr) =
          (case validate_values E (meta e) (schema e) (pre' @ (key', w) # post') of
             Inl x \<Rightarrow> Inl x
           | Inr u \<Rightarrow> validate_values E m sch post)"
      unfolding call .
    then show ?thesis
      unfolding validate_values_cascade [OF before' plain declared]
      by (simp only: case_if_Inl)
  qed
  have two: "validate_values E m (AList.update key d sch) ?vs = validate_values E m sch ?vs"
    by (rule validate_values_schema) (simp add: update_conv' apart)
  have three: "validate_values E m (AList.delete key sch) ?vs = validate_values E m sch ?vs"
    by (rule validate_values_schema) (simp add: delete_conv' apart)
  have c2: "\<forall>e. v = Inst e \<longrightarrow> member E e ''validate'' = Inr None \<longrightarrow>
                invoke_validate E v = validate_values E (meta e) (schema e) (vals e)"
    using own by blast
  have c4: "validate E (Instance k m (AList.update key d sch) ?vs ps pr) =
            validate E (Instance k m sch ?vs ps pr)"
    using two by simp
  have c5: "validate E (Instance k m (AList.delete key sch) ?vs ps pr) =
            validate E (Instance k m sch ?vs ps pr)"
    using three by simp
  show ?thesis
  proof (intro conjI)
    show "\<forall>e pre' key' w post' d'.
               v = Inst e \<longrightarrow> member E e ''validate'' = Inr None \<longrightarrow>
               validate_values E m sch pre = Inr () \<longrightarrow>
               vals e = pre' @ (key', w) # post' \<longrightarrow>
               validate_values E (meta e) (schema e) pre' = Inr () \<longrightarrow>
               is_embedded E w = Inr False \<longrightarrow>
               map_of (schema e) key' = Some d' \<longrightarrow>
               validate E (Instance k m sch (pre @ (key, v) # post) ps pr) =
                 (if \<not> isValidType E w (dtype d')
                  then Inl (case typeName (dtype d') of
                              Inl x \<Rightarrow> x
                            | Inr tn \<Rightarrow> message (meta e) (\<lambda>c. WrongType c key' tn (valueName w)))
                  else if \<exists>r s. dmatch d' = Some r \<and> w = Str s \<and> \<not> regexTest E r s
                  then Inl (message (meta e) (\<lambda>c. NoMatch c key' (the (dmatch d')) w))
                  else if \<not> isInChoices E (dchoices d') w
                  then Inl (message (meta e) (\<lambda>c. case dchoices d' of
                                                      None \<Rightarrow> JsTypeError
                                                    | Some cs \<Rightarrow> NotInChoices c key' cs w))
                  else if \<exists>b. dmin d' = Some b \<and> b \<noteq> 0 \<and> js_lt E w b
                  then Inl (message (meta e) (\<lambda>c. LessThanMin c key' (the (dmin d')) w))
                  else if \<exists>b. dmax d' = Some b \<and> b \<noteq> 0 \<and> js_gt E w b
                  then Inl (message (meta e) (\<lambda>c. GreaterThanMax c key' (the (dmax d')) w))
                  else if \<exists>f. dvalidate d' = Some f \<and> typeof f = ''function''
                              \<and> \<not> truthy (callFn E f [w])
                  then Inl (message (meta e) (\<lambda>c. CustomFailed c key' w))
                  else (case validate_values E (meta e) (schema e) post' of
                          Inl x \<Rightarrow> Inl x
                        | Inr u \<Rightarrow> validate_values E m sch post))"
      by (intro allI impI) (rule deep)
  qed (rule one c2 c4 c5)+
qed

text \<open>
  Claim C4. For a field that is not an embedded document the checks run in the order
  type, pattern (on strings), choices, minimum, maximum, custom validator. The first
  check that fails decides the outcome of the whole \<^verbatim>\<open>validate()\<close>: its error is the one
  thrown, whatever the later checks of the field and the fields after it would say; only
  when all six pass does the pass go on to the later fields. The error carries the
  collection name of the document; on a document without \<^verbatim>\<open>_meta\<close> the failing check
  still ends the pass, with the \<^verbatim>\<open>TypeError\<close> of reading the name.
\<close>

theorem validate_check_order:
  assumes before: "validate_values E m sch pre = Inr ()"
    and plain: "is_embedded E v = Inr False"
    and declared: "map_of sch key = Some d"
  shows "validate E (Instance k m sch (pre @ (key, v) # post) ps pr) =
     (if \<not> isValidType E v (dtype d)
      then Inl (case typeName (dtype d) of
                  Inl e \<Rightarrow> e
                | Inr tn \<Rightarrow> message m (\<lambda>c. WrongType c key tn (valueName v)))
      else if \<exists>r s. dmatch d = Some r \<and> v = Str s \<and> \<not> regexTest E r s
      then Inl (message m (\<lambda>c. NoMatch c key (the (dmatch d)) v))
      else if \<not> isInChoices E (dchoices d) v
      then Inl (message m (\<lambda>c. case dchoices d of
                                   None \<Rightarrow> JsTypeError
                                 | Some cs \<Rightarrow> NotInChoices c key cs v))
      else if \<exists>b. dmin d = Some b \<and> b \<noteq> 0 \<and> js_lt E v b
      then Inl (message m (\<lambda>c. LessThanMin c key (the (dmin d)) v))
      else if \<exists>b. dmax d = Some b \<and> b \<noteq> 0 \<and> js_gt E v b
      then Inl (message m (\<lambda>c. GreaterThanMax c key (the (dmax d)) v))
      else if \<exists>f. dvalidate d = Some f \<and> typeof f = ''function'' \<and> \<not> truthy (callFn E f [v])
      then Inl (message m (\<lambda>c. CustomFailed c key v))
      else validate_values E m sch post)"
  unfolding validate.simps by (rule validate_values_cascade [OF before plain declared])

lemmas proxy_simps =
  member_def proxy_get_def has_key_def read_def reflect_get_def object_members_def
  base_methods_def

lemmas example_simps =
  example_env_def spec_isValidType_def spec_isType_def spec_isInChoices_def
  example_regexTest_def example_callFn_def js_lt_def js_gt_def

text \<open>Claim C7 at the document of the tests, whose embedded document holds 26 under a
  maximum of 10: the parent declares \<^verbatim>\<open>emb\<close> as a string, which the embedded document is
  not, and the parent is refused with the error of the embedded document's maximum. The
  embedded document has no collection name, so the error is the \<^verbatim>\<open>TypeError\<close> of reading
  it. With 5 in the embedded document the parent passes.\<close>

theorem validate_embedded_witness:
  "is_embedded example_env (Inst (embedded_model (Num 26))) = Inr True
   \<and> distinct (map fst ([] @ (''emb'', Inst (embedded_model (Num 26))) # []))
   \<and> member example_env (embedded_model (Num 26)) ''validate'' = Inr None
   \<and> vals (embedded_model (Num 26)) = [] @ (''num'', Num 26) # []
   \<and> is_embedded example_env (Num 26) = Inr False
   \<and> map_of (schema (embedded_model (Num 26))) ''num'' = Some (number_decl None (Some 10))
   \<and> js_gt example_env (Num 26) 10
   \<and> \<not> isValidType example_env (Inst (embedded_model (Num 26))) TString
   \<and> validate example_env (document_model (Decl TString None None None None None None False)
        (Inst (embedded_model (Num 26)))) =
      Inl (message None (\<lambda>c. GreaterThanMax c ''num'' 10 (Num 26)))
   \<and> message None (\<lambda>c. GreaterThanMax c ''num'' 10 (Num 26)) = JsTypeError
   \<and> validate example_env (document_model (Decl TString None None None None None None False)
        (Inst (embedded_model (Num 5)))) = Inr ()"
proof -
  let ?e = "embedded_model (Num 26)"
  let ?f = "embedded_model (Num 5)"
  let ?d = "Decl TString None None None None None None False"
  let ?sch = "[(''_id'', id_decl), (''emb'', ?d)]"
  have h1: "is_embedded example_env (Inst ?e) = Inr True"
    by (simp add: embedded_model_def proxy_simps documentClass_def)
  have h2: "distinct (map fst ([] @ (''emb'', Inst ?e) # []))"
    by simp
  have h3: "member example_env ?e ''validate'' = Inr None"
    by (simp add: embedded_model_def proxy_simps)
  have h4: "validate_values example_env (Some ''documentmodel'') ?sch [] = Inr ()"
    by simp
  have h5: "vals ?e = [] @ (''num'', Num 26) # []"
    by (simp add: embedded_model_def)
  have h6: "validate_values example_env (meta ?e) (schema ?e) [] = Inr ()"
    by simp
  have h7: "is_embedded example_env (Num 26) = Inr False"
    by simp
  have h8: "map_of (schema ?e) ''num'' = Some (number_decl None (Some 10))"
    by (simp add: embedded_model_def)
  have h9: "js_gt example_env (Num 26) 10"
    by (simp add: example_simps)
  have h10: "\<not> isValidType example_env (Inst ?e) TString"
    by (simp add: example_simps)
  have m: "meta ?e = None"
    by (simp add: embedded_model_def)
  note deep = validate_embedded [where m = "Some ''documentmodel''" and sch = ?sch
      and k = KDocument and ps = "[(''emb'', DeclV ?d)]" and pr = "[]",
      OF h1 h2, THEN conjunct2, THEN conjunct2, THEN conjunct1, rule_format,
      OF refl h3 h4 h5 h6 h7 h8]
  have r26: "validate example_env (document_model ?d (Inst ?e)) =
             Inl (message None (\<lambda>c. GreaterThanMax c ''num'' 10 (Num 26)))"
    unfolding document_model_def
    using deep unfolding m by (simp add: number_decl_def example_simps)
  have msg: "message None (\<lambda>c. GreaterThanMax c ''num'' 10 (Num 26)) = JsTypeError"
    by (simp add: message_def)
  have g1: "is_embedded example_env (Inst ?f) = Inr True"
    by (simp add: embedded_model_def proxy_simps documentClass_def)
  have g2: "distinct (map fst ([] @ (''emb'', Inst ?f) # []))"
    by simp
  have g3: "member example_env ?f ''validate'' = Inr None"
    by (simp add: embedded_model_def proxy_simps)
  have g4: "validate_values example_env (meta ?f) (schema ?f) (vals ?f) = Inr ()"
    by (simp add: embedded_model_def number_decl_def example_simps validate_field_def
        check_type_def check_match_def check_choices_def check_min_def check_max_def
        check_custom_def)
  note both = validate_embedded [where m = "Some ''documentmodel''" and sch = ?sch, OF g1 g2]
  note step = both [THEN conjunct1]
  note call = both [THEN conjunct2, THEN conjunct1, rule_format, OF refl g3]
  have r5: "validate example_env (document_model ?d (Inst ?f)) = Inr ()"
    unfolding document_model_def validate.simps
    using step unfolding call g4 by simp
  from h1 h2 h3 h5 h7 h8 h9 h10 r26 msg r5 show ?thesis by (intro conjI)
qed

text \<open>Claim C4 at a value that violates the choices, the minimum and the validator of its
  field, before a field that violates its maximum: the choices are reported.\<close>

theorem validate_check_order_witness:
  "validate_values example_env (Some ''numbers'')
     [(''_id'', id_decl), (''num'', busy_decl), (''other'', number_decl None (Some 10))] [] = Inr ()
   \<and> is_embedded example_env (Num 13) = Inr False
   \<and> map_of [(''_id'', id_decl), (''num'', busy_decl), (''other'', number_decl None (Some 10))]
        ''num'' = Some busy_decl
   \<and> js_lt example_env (Num 13) 20
   \<and> \<not> truthy (callFn example_env (Fn 0) [Num 13])
   \<and> validate example_env
        (Instance KDocument (Some ''numbers'')
           [(''_id'', id_decl), (''num'', busy_decl), (''other'', number_decl None (Some 10))]
           ([] @ (''num'', Num 13) # [(''other'', Num 26)]) [] []) =
      Inl (NotInChoices ''numbers'' ''num'' [Num 1, Num 2] (Num 13))"
proof -
  let ?sch = "[(''_id'', id_decl), (''num'', busy_decl), (''other'', number_decl None (Some 10))]"
  have h1: "validate_values example_env (Some ''numbers'') ?sch [] = Inr ()" by simp
  have h2: "is_embedded example_env (Num 13) = Inr False" by simp
  have h3: "map_of ?sch ''num'' = Some busy_decl" by simp
  have h4: "js_lt example_env (Num 13) 20" by (simp add: example_simps)
  have h5: "\<not> truthy (callFn example_env (Fn 0) [Num 13])" by (simp add: example_simps)
  have "validate example_env
        (Instance KDocument (Some ''numbers'') ?sch ([] @ (''num'', Num 13) # [(''other'', Num 26)]) [] []) =
      Inl (NotInChoices ''numbers'' ''num'' [Num 1, Num 2] (Num 13))"
    unfolding validate_check_order [OF h1 h2 h3]
    by (simp add: busy_decl_def example_simps message_def)
  with h1 h2 h3 h4 h5 show ?thesis by blast
qed

text \<open>
  Claim C1, at the bound 0. With \<^verbatim>\<open>{num: {type: Number, min: 0}}\<close> the value -5 is below
  the minimum and \<^verbatim>\<open>validate()\<close> returns without an error; with \<^verbatim>\<open>max: 0\<close> the value 5
  is above the maximum and \<^verbatim>\<open>validate()\<close> returns without an error.
\<close>

theorem validate_zero_bound_accepts:
  "js_lt example_env (Num (- 5)) 0
   \<and> validate example_env (num_doc (number_decl (Some 0) None) (Num (- 5))) = Inr ()
   \<and> js_gt example_env (Num 5) 0
   \<and> validate example_env (num_doc (number_decl None (Some 0)) (Num 5)) = Inr ()"
  by (simp add: num_doc_def number_decl_def example_simps validate_field_def check_type_def
      check_match_def check_choices_def check_min_def check_max_def check_custom_def)

text \<open>The part of claim C1 that the code keeps: with a bound that is not 0, a number
  outside the bounds of its field, valid for the type, the pattern and the choices, is
  refused with the error of the bound, and a number within the bounds passes the two
  checks of the bounds.\<close>

lemma validate_below_min:
  assumes "map_of sch key = Some d" and "isValidType E (Num x) (dtype d)"
    and "isInChoices E (dchoices d) (Num x)"
    and "dmin d = Some b" and "b \<noteq> 0" and "x < b"
  shows "validate_field E (Some c) sch key (Num x) = Inl (LessThanMin c key b (Num x))"
  using assms by (simp add: validate_field_cascade js_lt_def message_def)

lemma validate_above_max:
  assumes "map_of sch key = Some d" and "isValidType E (Num x) (dtype d)"
    and "isInChoices E (dchoices d) (Num x)"
    and "\<forall>a. dmin d = Some a \<longrightarrow> a \<le> x"
    and "dmax d = Some b" and "b \<noteq> 0" and "b < x"
  shows "validate_field E (Some c) sch key (Num x) = Inl (GreaterThanMax c key b (Num x))"
  using assms by (auto simp: validate_field_cascade js_lt_def js_gt_def message_def)

lemma validate_within_bounds:
  assumes "\<forall>a. dmin d = Some a \<longrightarrow> a \<le> x" and "\<forall>b. dmax d = Some b \<longrightarrow> x \<le> b"
  shows "check_min E m key d (Num x) = Inr () \<and> check_max E m key d (Num x) = Inr ()"
  using assms by (auto simp: check_min_def check_max_def js_lt_def js_gt_def split: option.splits)

text \<open>A bound of 0 is never enforced.\<close>

lemma check_min_zero: "dmin d = Some 0 \<Longrightarrow> check_min E m key d v = Inr ()"
  by (simp add: check_min_def)

lemma check_max_zero: "dmax d = Some 0 \<Longrightarrow> check_max E m key d v = Inr ()"
  by (simp add: check_max_def)

lemma validate_max_scenario:
  "validate example_env (num_doc (number_decl None (Some 10)) (Num 26)) =
     Inl (GreaterThanMax ''numbers'' ''num'' 10 (Num 26))
   \<and> validate example_env (num_doc (number_decl None (Some 10)) (Num 5)) = Inr ()"
  by (simp add: num_doc_def number_decl_def example_simps validate_field_def check_type_def
      check_match_def check_choices_def check_min_def check_max_def check_custom_def throw_def
      message_def)


section \<open>Properties of canonicalize\<close>

lemma canonicalize_snd:
  "snd (canonicalize E d) =
     Instance (kind d) (meta d) (schema d) (snd (canonicalize_values E (schema d) (vals d)))
       (props d) (proto d)"
  by (cases d) (simp split: prod.splits)

lemma canonicalize_fst:
  "fst (canonicalize E d) = fst (canonicalize_values E (schema d) (vals d))"
  by (cases d) (simp split: prod.splits)

lemma invoke_canonicalize_shape:
  "snd (invoke_canonicalize E v) = v \<or>
   (\<exists>d. v = Inst d \<and> member E d ''canonicalize'' = Inr None
        \<and> snd (invoke_canonicalize E v) = Inst (snd (canonicalize E d)))"
  by (cases v) (simp_all add: invoke_canonicalize.simps split: sum.splits option.splits prod.splits)

lemma date_of_shape: "date_of d v = Some dv \<Longrightarrow> \<exists>x. v = Num x \<and> dv = newDate x"
  by (cases v) (simp_all add: date_of_def split: if_splits)

lemma date_of_newDate [simp]: "date_of d (newDate x) = None"
  by (simp add: date_of_def newDate_def)

lemma is_embedded_newDate [simp]: "is_embedded E (newDate x) = Inr False"
  by (simp add: newDate_def)

lemma date_of_Inst [simp]: "date_of d (Inst i) = None"
  by (simp add: date_of_def)

lemma date_at_shape: "date_at sch key v = Inr (Some dv) \<Longrightarrow> \<exists>x. v = Num x \<and> dv = newDate x"
  by (auto simp: date_at_def dest: date_of_shape split: option.splits if_splits)

lemma date_at_newDate: "date_at sch key v = Inr r \<Longrightarrow> date_at sch key (newDate x) = Inr None"
  by (auto simp: date_at_def split: option.splits if_splits)

lemma date_at_Inst: "date_at sch key v = Inr r \<Longrightarrow> date_at sch key (Inst i) = Inr None"
  by (auto simp: date_at_def split: option.splits if_splits)

text \<open>One step of the walk: the head keeps its key, the tail is the old tail or its walk.\<close>

lemma canonicalize_values_Cons:
  "\<exists>v' rest'. snd (canonicalize_values E sch ((key, v) # rest)) = (key, v') # rest'
     \<and> (rest' = rest \<or> rest' = snd (canonicalize_values E sch rest))
     \<and> (v' = v \<or> (\<exists>x. v = Num x) \<or> (\<exists>d. v = Inst d))"
proof (cases "date_at sch key v")
  case (Inl e)
  then show ?thesis by simp
next
  case (Inr r)
  show ?thesis
  proof (cases r)
    case (Some dv)
    with Inr date_at_shape [of sch key v dv] show ?thesis
      by (auto split: prod.splits)
  next
    case None
    from invoke_canonicalize_shape [of E v]
    have "snd (invoke_canonicalize E v) = v \<or> (\<exists>d. v = Inst d)" by blast
    with None Inr show ?thesis
      by (cases "invoke_canonicalize E v")
        (auto split: prod.splits sum.splits bool.splits option.splits)
  qed
qed

lemma canonicalize_values_function:
  "map_of vs k = Some f \<Longrightarrow> typeof f = ''function''
     \<Longrightarrow> map_of (snd (canonicalize_values E sch vs)) k = Some f"
proof (induction vs)
  case Nil
  then show ?case by simp
next
  case (Cons p vs)
  obtain key v where p: "p = (key, v)" by (cases p)
  from canonicalize_values_Cons [of E sch key v vs]
  obtain v' rest' where step: "snd (canonicalize_values E sch ((key, v) # vs)) = (key, v') # rest'"
    and tail: "rest' = vs \<or> rest' = snd (canonicalize_values E sch vs)"
    and head: "v' = v \<or> (\<exists>x. v = Num x) \<or> (\<exists>d. v = Inst d)"
    by blast
  show ?case
  proof (cases "key = k")
    case True
    with Cons.prems p have "v = f" by simp
    with head Cons.prems(2) have "v' = f" by auto
    with True p step show ?thesis by simp
  next
    case False
    with Cons.prems p have "map_of vs k = Some f" by simp
    with Cons.IH Cons.prems(2) tail have "map_of rest' k = Some f" by auto
    with False p step show ?thesis by simp
  qed
qed

lemma canonicalize_values_keys:
  "map fst (snd (canonicalize_values E sch vs)) = map fst vs"
proof (induction vs)
  case Nil
  then show ?case by simp
next
  case (Cons p vs)
  obtain key v where p: "p = (key, v)" by (cases p)
  from canonicalize_values_Cons [of E sch key v vs]
  obtain v' rest' where step: "snd (canonicalize_values E sch ((key, v) # vs)) = (key, v') # rest'"
    and tail: "rest' = vs \<or> rest' = snd (canonicalize_values E sch vs)"
    by blast
  with Cons.IH have "map fst rest' = map fst vs" by auto
  with p step show ?case by simp
qed

lemma canonicalize_values_absent:
  "map_of vs k = None \<Longrightarrow> map_of (snd (canonicalize_values E sch vs)) k = None"
  by (simp add: map_of_eq_None_iff canonicalize_values_keys flip: set_map)

lemma says_embedded_function: "says_embedded E f = Inr True \<Longrightarrow> typeof f = ''function''"
  by (cases f) (simp_all add: says_embedded_def split: if_splits)

text \<open>A member that is not among the values, or is a function there, is the same member
  after the run.\<close>

lemma member_value:
  assumes "map_of (vals d) k = Some f"
  shows "member E d k = Inr (if f = Builtin k then None else Some f)"
proof -
  from assms have "k \<in> fst ` set (vals d)" by (force dest: map_of_SomeD)
  with assms show ?thesis by (simp add: member_def proxy_get_def has_key_def read_def)
qed

lemma kind_canonicalize: "kind (snd (canonicalize E d)) = kind d"
  by (simp add: canonicalize_snd)

lemma reflect_get_frame:
  assumes "k \<noteq> ''id''" and "meta d' = meta d" and "props d' = props d" and "proto d' = proto d"
  shows "reflect_get (E\<lparr>getter := \<lambda>f d. Inl Unmodelled\<rparr>) d' k =
         reflect_get (E\<lparr>getter := \<lambda>f d. Inl Unmodelled\<rparr>) d k"
  using assms by (auto simp: reflect_get_def split: option.splits slot.splits)

lemma member_canonicalize:
  assumes "k \<noteq> ''id''"
    and "map_of (vals d) k = None \<or> (\<exists>f. map_of (vals d) k = Some f \<and> typeof f = ''function'')"
  shows "member E (snd (canonicalize E d)) k = member E d k"
proof -
  let ?vs = "snd (canonicalize_values E (schema d) (vals d))"
  let ?d = "snd (canonicalize E d)"
  from assms(2) have same: "map_of ?vs k = map_of (vals d) k"
    by (auto simp: canonicalize_values_absent canonicalize_values_function)
  have keys: "fst ` set ?vs = fst ` set (vals d)"
    using canonicalize_values_keys [of E "schema d" "vals d"] by (metis set_map)
  have vs: "vals ?d = ?vs" by (simp add: canonicalize_snd)
  have hk: "has_key ?vs k = has_key (vals d) k" by (simp add: has_key_def keys)
  have rd: "read ?vs k = read (vals d) k" by (simp add: read_def same)
  have rg: "reflect_get (E\<lparr>getter := \<lambda>f d. Inl Unmodelled\<rparr>) ?d k =
            reflect_get (E\<lparr>getter := \<lambda>f d. Inl Unmodelled\<rparr>) d k"
    by (rule reflect_get_frame [OF assms(1)]) (simp_all add: canonicalize_snd)
  show ?thesis
    unfolding member_def proxy_get_def vs hk rd rg using assms(1) by simp
qed

lemma is_embedded_canonicalize:
  assumes "is_embedded E (Inst d) = Inr True"
  shows "is_embedded E (Inst (snd (canonicalize E d))) = Inr True"
proof -
  have mem: "member E (snd (canonicalize E d)) ''documentClass'' = member E d ''documentClass''"
  proof (cases "map_of (vals d) ''documentClass''")
    case None
    then show ?thesis by (intro member_canonicalize) simp_all
  next
    case (Some f)
    note m = member_value [OF Some, of E]
    have "typeof f = ''function''"
    proof (cases "f = Builtin ''documentClass''")
      case True
      then show ?thesis by simp
    next
      case False
      with assms m have "says_embedded E f = Inr True" by simp
      then show ?thesis by (rule says_embedded_function)
    qed
    with Some show ?thesis by (intro member_canonicalize) simp_all
  qed
  have "is_embedded E (Inst (snd (canonicalize E d))) = is_embedded E (Inst d)"
    unfolding is_embedded.simps mem kind_canonicalize by (rule refl)
  with assms show ?thesis by simp
qed

lemma is_embedded_invoke:
  assumes "is_embedded E v = Inr True"
  shows "is_embedded E (snd (invoke_canonicalize E v)) = Inr True"
  using invoke_canonicalize_shape [of E v] assms is_embedded_canonicalize by auto

lemma date_at_invoke:
  assumes "date_at sch key v = Inr None"
  shows "date_at sch key (snd (invoke_canonicalize E v)) = Inr None"
  using invoke_canonicalize_shape [of E v] assms date_at_Inst [OF assms] by auto

lemma member_canonicalize_None:
  assumes "member E d ''canonicalize'' = Inr None"
  shows "member E (snd (canonicalize E d)) ''canonicalize'' = Inr None"
proof (cases "map_of (vals d) ''canonicalize''")
  case None
  then have "member E (snd (canonicalize E d)) ''canonicalize'' = member E d ''canonicalize''"
    by (intro member_canonicalize) simp_all
  with assms show ?thesis by simp
next
  case (Some f)
  from assms member_value [OF Some, of E] have "f = Builtin ''canonicalize''"
    by (simp split: if_splits)
  then have "typeof f = ''function''" by simp
  with Some have "member E (snd (canonicalize E d)) ''canonicalize'' = member E d ''canonicalize''"
    by (intro member_canonicalize) simp_all
  with assms show ?thesis by simp
qed

lemma canonicalize_idem_all:
  "canonicalize E (snd (canonicalize E d)) = canonicalize E d"
  "canonicalize_values E sch (snd (canonicalize_values E sch vs)) = canonicalize_values E sch vs"
  "invoke_canonicalize E (snd (invoke_canonicalize E v)) = invoke_canonicalize E v"
proof (induction E d and E sch vs and E v
    rule: canonicalize_canonicalize_values_invoke_canonicalize.induct)
  case (1 E k m sch vs ps pr)
  then show ?case
    by (cases "canonicalize_values E sch vs") simp
next
  case (2 E sch)
  show ?case by simp
next
  case (3 E sch key v rest)
  show ?case
  proof (cases "date_at sch key v")
    case (Inl e)
    then show ?thesis by simp
  next
    case (Inr r)
    note declared = Inr
    show ?thesis
    proof (cases r)
      case (Some dv)
      from date_at_shape [of sch key v dv] declared Some obtain x where dv: "dv = newDate x"
        by blast
      from date_at_newDate [OF declared] have again: "date_at sch key (newDate x) = Inr None" .
      from "3.IH"(4) [OF declared Some]
      have "canonicalize_values E sch (snd (canonicalize_values E sch rest)) =
            canonicalize_values E sch rest" .
      with declared Some dv again show ?thesis
        by (cases "canonicalize_values E sch rest") simp
    next
      case None
      note nodate = None
      show ?thesis
      proof (cases "is_embedded E v")
        case (Inl e)
        with declared nodate show ?thesis by simp
      next
        case (Inr b)
        show ?thesis
        proof (cases b)
          case False
          then have bF: "b = False" by simp
          from "3.IH"(3) [OF declared nodate Inr bF]
          have "canonicalize_values E sch (snd (canonicalize_values E sch rest)) =
                canonicalize_values E sch rest" .
          with declared nodate Inr bF show ?thesis
            by (cases "canonicalize_values E sch rest") simp
        next
          case True
          then have bT: "b = True" by simp
          from "3.IH"(1) [OF declared nodate Inr bT]
          have again: "invoke_canonicalize E (snd (invoke_canonicalize E v)) =
                       invoke_canonicalize E v" .
          obtain r' v' where inv: "invoke_canonicalize E v = (r', v')"
            by (cases "invoke_canonicalize E v")
          from again inv have inv': "invoke_canonicalize E v' = (r', v')" by simp
          from is_embedded_invoke [of E v] Inr bT inv
          have emb': "is_embedded E v' = Inr True" by simp
          from date_at_invoke [of sch key v E] declared nodate inv
          have nodate': "date_at sch key v' = Inr None" by simp
          show ?thesis
          proof (cases r')
            case (Some e)
            with declared nodate Inr bT inv inv' emb' nodate' show ?thesis
              by simp
          next
            case None
            from "3.IH"(2) [OF declared nodate Inr bT inv [symmetric] None]
            have "canonicalize_values E sch (snd (canonicalize_values E sch rest)) =
                  canonicalize_values E sch rest" .
            with None declared nodate Inr bT inv inv' emb' nodate' show ?thesis
              by (cases "canonicalize_values E sch rest") simp
          qed
        qed
      qed
    qed
  qed
next
  case (4 E v)
  show ?case
  proof (cases v)
    case (Inst d)
    show ?thesis
    proof (cases "member E d ''canonicalize''")
      case (Inl e)
      with Inst show ?thesis by (simp add: invoke_canonicalize.simps)
    next
      case (Inr f)
      show ?thesis
      proof (cases f)
        case None
        with Inr have inherited: "member E d ''canonicalize'' = Inr None" by simp
        from "4.IH" [OF Inst Inr None]
        have "canonicalize E (snd (canonicalize E d)) = canonicalize E d" .
        with Inst inherited member_canonicalize_None [OF inherited] show ?thesis
          by (cases "canonicalize E d") (simp add: invoke_canonicalize.simps)
      next
        case (Some g)
        with Inst Inr show ?thesis by (simp add: invoke_canonicalize.simps)
      qed
    qed
  qed (simp_all add: invoke_canonicalize.simps)
qed

lemma canonicalize_values_no_error:
  assumes "fst (canonicalize_values E sch ((k0, v) # rest)) = None"
  shows "fst (canonicalize_values E sch rest) = None
     \<and> (\<exists>v'. snd (canonicalize_values E sch ((k0, v) # rest)) =
               (k0, v') # snd (canonicalize_values E sch rest))"
  using assms
  by (auto split: option.splits sum.splits bool.splits prod.splits)

lemma canonicalize_values_date:
  "fst (canonicalize_values E sch vs) = None \<Longrightarrow> map_of sch key = Some dd \<Longrightarrow> dtype dd = TDate
     \<Longrightarrow> map_of vs key = Some (Num x)
     \<Longrightarrow> map_of (snd (canonicalize_values E sch vs)) key = Some (newDate x)"
proof (induction vs)
  case Nil
  then show ?case by simp
next
  case (Cons p vs)
  obtain k0 v where p: "p = (k0, v)" by (cases p)
  show ?case
  proof (cases "k0 = key")
    case True
    with Cons.prems p have "v = Num x" by simp
    with True p Cons.prems(2,3) show ?thesis
      by (simp add: date_at_def date_of_def split: prod.splits)
  next
    case False
    from canonicalize_values_no_error [of E sch k0 v vs] Cons.prems(1) p
    obtain v' where ok: "fst (canonicalize_values E sch vs) = None"
      and step: "snd (canonicalize_values E sch (p # vs)) = (k0, v') # snd (canonicalize_values E sch vs)"
      by auto
    from False Cons.prems(4) p have "map_of vs key = Some (Num x)" by simp
    from Cons.IH [OF ok Cons.prems(2,3) this] False step show ?thesis by simp
  qed
qed

text \<open>
  Claim C6. \<^verbatim>\<open>canonicalize()\<close> is idempotent: run on the document that a first run leaves,
  it leaves the same document and ends the same way, through the embedded documents as
  well. When the first run ends without an exception, a date field that held the number
  \<open>x\<close> holds the date \<^verbatim>\<open>new Date(x)\<close>.
\<close>

theorem canonicalize_idempotent:
  "canonicalize E (snd (canonicalize E d)) = canonicalize E d
   \<and> (fst (canonicalize E d) = None \<longrightarrow> map_of (schema d) key = Some dd \<longrightarrow> dtype dd = TDate
        \<longrightarrow> map_of (vals d) key = Some (Num x)
        \<longrightarrow> map_of (vals (snd (canonicalize E d))) key = Some (newDate x))"
  using canonicalize_idem_all(1) [of E d] canonicalize_values_date [of E "schema d" "vals d" key dd x]
  by (simp add: canonicalize_fst canonicalize_snd)

lemma newDate_examples: "newDate (3001 / 2) = DateV (Some 1500)" "newDate (- (5 / 2)) = DateV (Some (- 2))"
  by (simp_all add: newDate_def)


text \<open>Claim C6 at an event whose time stamp and whose embedded place's time stamp are
  numbers: both are dates after one run, and a second run changes nothing.\<close>

theorem canonicalize_idempotent_witness:
  "fst (canonicalize example_env (event (Num (3001 / 2)) (Num (- (5 / 2))))) = None
   \<and> map_of (schema (event (Num (3001 / 2)) (Num (- (5 / 2))))) ''at'' = Some date_decl
   \<and> dtype date_decl = TDate
   \<and> map_of (vals (event (Num (3001 / 2)) (Num (- (5 / 2))))) ''at'' = Some (Num (3001 / 2))
   \<and> map_of (vals (snd (canonicalize example_env (event (Num (3001 / 2)) (Num (- (5 / 2)))))))
        ''at'' = Some (DateV (Some 1500))
   \<and> canonicalize example_env (snd (canonicalize example_env (event (Num (3001 / 2)) (Num (- (5 / 2)))))) =
      canonicalize example_env (event (Num (3001 / 2)) (Num (- (5 / 2))))
   \<and> snd (canonicalize example_env (event (Num (3001 / 2)) (Num (- (5 / 2))))) =
      event (DateV (Some 1500)) (DateV (Some (- 2)))"
proof -
  let ?ev = "event (Num (3001 / 2)) (Num (- (5 / 2)))"
  have run: "canonicalize example_env ?ev = (None, event (DateV (Some 1500)) (DateV (Some (- 2))))"
    by (simp add: event_def place_def date_decl_def date_at_def date_of_def newDate_def
        proxy_simps documentClass_def invoke_canonicalize.simps)
  have h1: "fst (canonicalize example_env ?ev) = None" by (subst run) simp
  have h2: "map_of (schema ?ev) ''at'' = Some date_decl" by (simp add: event_def)
  have h3: "dtype date_decl = TDate" by (simp add: date_decl_def)
  have h4: "map_of (vals ?ev) ''at'' = Some (Num (3001 / 2))" by (simp add: event_def)
  note idem = canonicalize_idempotent [of example_env ?ev "''at''" date_decl "3001 / 2"]
  from idem h1 h2 h3 h4
  have "map_of (vals (snd (canonicalize example_env ?ev))) ''at'' = Some (newDate (3001 / 2))"
    by blast
  then have c1: "map_of (vals (snd (canonicalize example_env ?ev))) ''at'' = Some (DateV (Some 1500))"
    by (simp add: newDate_examples)
  from idem have c2: "canonicalize example_env (snd (canonicalize example_env ?ev)) =
      canonicalize example_env ?ev" by blast
  have c3: "snd (canonicalize example_env ?ev) = event (DateV (Some 1500)) (DateV (Some (- 2)))"
    by (subst run) simp
  from h1 h2 h3 h4 c1 c2 c3 show ?thesis by blast
qed


section \<open>Properties of create and toJSON\<close>

lemma typeof_undefined: "typeof v = ''undefined'' \<longleftrightarrow> v = Undefined"
proof (cases v)
  case (TypeV t)
  then show ?thesis by (cases t) simp_all
qed simp_all

lemma toJSON_proto_other:
  "toJSON_proto E d ks vs = Inr js \<Longrightarrow> key \<notin> set ks \<or> key = ''constructor'' \<or> key = ''id''
     \<Longrightarrow> map_of js key = map_of vs key"
proof (induction ks arbitrary: vs)
  case Nil
  then show ?case by simp
next
  case (Cons k ks)
  show ?case
  proof (cases "k \<noteq> ''constructor'' \<and> k \<noteq> ''id''")
    case True
    with Cons.prems(1) obtain v where v: "proxy_get E d k = Inr v"
      and run: "toJSON_proto E d ks (AList.update k v vs) = Inr js"
      by (auto split: sum.splits)
    from True Cons.prems(2) have "key \<noteq> k" by auto
    moreover from Cons.prems(2) have "key \<notin> set ks \<or> key = ''constructor'' \<or> key = ''id''"
      by auto
    from Cons.IH [OF run this] have "map_of js key = map_of (AList.update k v vs) key" .
    ultimately show ?thesis by (simp add: update_conv')
  next
    case False
    with Cons.prems(1) have run: "toJSON_proto E d ks vs = Inr js" by auto
    from Cons.prems(2) have "key \<notin> set ks \<or> key = ''constructor'' \<or> key = ''id''"
      by auto
    from Cons.IH [OF run this] show ?thesis .
  qed
qed

lemma toJSON_schema_absent:
  "key \<notin> fst ` set sch \<Longrightarrow> map_of (toJSON_schema sch vs) key = map_of vs key"
  by (induction sch arbitrary: vs) (auto simp: update_conv' delete_conv')

text \<open>The first loop at a declared key: a private field is removed, a field that reads as
  \<^verbatim>\<open>undefined\<close> gets its empty value, and any other is left as it is in the copy, where a
  name of \<^verbatim>\<open>Object.prototype\<close> without a value of its own is not.\<close>

lemma toJSON_schema_at:
  "distinct (map fst sch) \<Longrightarrow> map_of sch key = Some dc
     \<Longrightarrow> map_of (toJSON_schema sch vs) key =
         (if dprivate dc then None
          else if read vs key = Undefined
          then Some (if isArrayType (dtype dc) then Arr [] [] else Null)
          else map_of vs key)"
proof (induction sch arbitrary: vs)
  case Nil
  then show ?case by simp
next
  case (Cons p sch)
  obtain k0 d0 where p: "p = (k0, d0)" by (cases p)
  show ?case
  proof (cases "k0 = key")
    case True
    with Cons.prems p have dc: "d0 = dc" and absent: "key \<notin> fst ` set sch" by auto
    show ?thesis
      unfolding p True dc toJSON_schema.simps toJSON_schema_absent [OF absent]
      by (simp add: update_conv' delete_conv' typeof_undefined)
  next
    case False
    with Cons.prems p have "distinct (map fst sch)" and "map_of sch key = Some dc" by auto
    from Cons.IH [OF this] False p show ?thesis
      by (simp add: update_conv' delete_conv' read_def)
  qed
qed

lemma generateSchema_keys_frame:
  "generateSchema_keys E d0 ps = Inr d
     \<Longrightarrow> proto d = proto d0 \<and> props d = props d0 \<and> kind d = kind d0 \<and> meta d = meta d0"
  by (induction ps arbitrary: d0)
    (auto simp: Let_def set_value_def set_schema_def split: if_splits sum.splits)

lemma generateSchema_keys_distinct:
  "generateSchema_keys E d0 ps = Inr d \<Longrightarrow> distinct (map fst (schema d0))
     \<Longrightarrow> distinct (map fst (schema d))"
  by (induction ps arbitrary: d0)
    (auto simp: Let_def set_value_def set_schema_def distinct_update split: if_splits sum.splits)

text \<open>What a stored value can be when its declaration has no default.\<close>

lemma getDefault_none:
  "map_of (schema d) k = Some dc \<Longrightarrow> ddefault dc = None \<Longrightarrow> \<not> startsWith_underscore k
     \<Longrightarrow> getDefault E d k = Undefined"
  by (auto simp: getDefault_def startsWith_underscore_def)

lemma generateSchema_keys_unset:
  assumes "generateSchema_keys E d0 ps = Inr d"
    and "\<forall>key v dc. map_of (vals d0) key = Some v \<longrightarrow> map_of (schema d0) key = Some dc
           \<longrightarrow> ddefault dc = None
           \<longrightarrow> v = Undefined \<or> (isArrayType (dtype dc) \<and> v = Arr [] [])"
  shows "\<forall>key v dc. map_of (vals d) key = Some v \<longrightarrow> map_of (schema d) key = Some dc
           \<longrightarrow> ddefault dc = None
           \<longrightarrow> v = Undefined \<or> (isArrayType (dtype dc) \<and> v = Arr [] [])"
  using assms
proof (induction ps arbitrary: d0)
  case Nil
  then show ?case by simp
next
  case (Cons p ps)
  obtain k q where p: "p = (k, q)" by (cases p)
  show ?case
  proof (cases "startsWith_underscore k")
    case True
    with Cons.prems(1) p have "generateSchema_keys E d0 ps = Inr d" by simp
    from Cons.IH [OF this Cons.prems(2)] show ?thesis .
  next
    case False
    with Cons.prems(1) p obtain dk where norm: "normalizeType E q = Inr dk"
      by (auto split: sum.splits)
    define d1 where "d1 = set_schema d0 k dk"
    define v1 where "v1 = (if isArrayType (dtype dk)
        then (if truthy (getDefault E d1 k) then getDefault E d1 k else Arr [] [])
        else getDefault E d1 k)"
    define d2 where "d2 = set_value d1 k v1"
    from Cons.prems(1) p False norm have run: "generateSchema_keys E d2 ps = Inr d"
      by (auto simp: Let_def d1_def v1_def d2_def split: if_splits)
    have inv: "\<forall>key' w dw. map_of (vals d2) key' = Some w \<longrightarrow> map_of (schema d2) key' = Some dw
           \<longrightarrow> ddefault dw = None
           \<longrightarrow> w = Undefined \<or> (isArrayType (dtype dw) \<and> w = Arr [] [])"
    proof (intro allI impI)
      fix key' w dw
      assume that: "map_of (vals d2) key' = Some w" "map_of (schema d2) key' = Some dw"
        "ddefault dw = None"
      show "w = Undefined \<or> (isArrayType (dtype dw) \<and> w = Arr [] [])"
      proof (cases "key' = k")
        case True
        with that have dw: "dw = dk" and w: "w = v1"
          by (simp_all add: d2_def d1_def set_value_def set_schema_def update_conv')
        have "map_of (schema d1) k = Some dk"
          by (simp add: d1_def set_schema_def update_conv')
        from getDefault_none [OF this _ False, of E] that(3) dw
        have "getDefault E d1 k = Undefined" by simp
        with dw w show ?thesis by (simp add: v1_def)
      next
        case False
        with that have "map_of (vals d0) key' = Some w" "map_of (schema d0) key' = Some dw"
          by (simp_all add: d2_def d1_def set_value_def set_schema_def update_conv')
        with Cons.prems(2) that(3) show ?thesis by blast
      qed
    qed
    from Cons.IH [OF run inv] show ?thesis .
  qed
qed

lemma instantiate_User: "instantiate example_env ''User'' = Inr created_User"
  by (simp add: instantiate_def generateSchema_def example_env_def example_construct_def
      new_User_def created_User_def startsWith_underscore_def normalizeType_def
      spec_isSupportedType_def getDefault_def set_schema_def set_value_def secret_decl_def
      Let_def)

text \<open>
  Claim C5. After \<^verbatim>\<open>create()\<close> without data, a field marked private is in the output of
  \<^verbatim>\<open>toJSON()\<close> when the class's prototype has a property of the same name. The first loop
  of \<^verbatim>\<open>toJSON\<close> deletes the field from the copy of the values; the second loop, over the own
  property names of the prototype, reads \<^verbatim>\<open>this[key]\<close> through the proxy, which answers
  with the stored value of the field, and writes it back. For the class \<^verbatim>\<open>User\<close>, whose
  private field \<^verbatim>\<open>secret\<close> has the default \<^verbatim>\<open>'x'\<close> and whose prototype has a method \<^verbatim>\<open>secret\<close>,
  the output of \<^verbatim>\<open>User.create().toJSON()\<close> holds \<^verbatim>\<open>secret: 'x'\<close>.
\<close>

theorem toJSON_private_leak:
  "instantiate example_env ''User'' = Inr created_User
   \<and> map_of (schema created_User) ''secret'' = Some secret_decl
   \<and> dprivate secret_decl
   \<and> toJSON example_env created_User =
       Inr [(''name'', Null), (''tags'', Arr [] []), (''_id'', Null), (''secret'', Str ''x''),
            (''initials'', Str ''?'')]"
proof -
  have out: "toJSON example_env created_User =
       Inr [(''name'', Null), (''tags'', Arr [] []), (''_id'', Null), (''secret'', Str ''x''),
            (''initials'', Str ''?'')]"
    by (simp add: created_User_def secret_decl_def id_decl_def toJSON_def proxy_get_def
        has_key_def read_def reflect_get_def object_members_def example_env_def
        example_getter_def)
  have decl: "map_of (schema created_User) ''secret'' = Some secret_decl"
    by (simp add: created_User_def)
  have priv: "dprivate secret_decl"
    by (simp add: secret_decl_def)
  from instantiate_User decl priv out show ?thesis by (intro conjI)
qed

text \<open>
  The part of claim C5 that the code keeps. After \<^verbatim>\<open>create()\<close> without data, when
  \<^verbatim>\<open>toJSON()\<close> returns (no getter of the prototype throws, and no field is called
  \<^verbatim>\<open>hasOwnProperty\<close>), for a field of the schema whose name is not an own property name of
  the class's prototype (the names \<^verbatim>\<open>constructor\<close> and \<^verbatim>\<open>id\<close> apart, which \<^verbatim>\<open>toJSON\<close> skips): a
  private field is not in the output; a field that reads as \<^verbatim>\<open>undefined\<close> in the values is
  in the output with the empty array for an array type and \<^verbatim>\<open>null\<close> for any other; any
  other field is in the output as it is in the values. A field declared without a
  default, under a name that is none of \<^verbatim>\<open>Object.prototype\<close>, is in the second case or holds
  the empty array already, when the constructor left \<^verbatim>\<open>_values\<close> empty as the constructor of
  \<^verbatim>\<open>BaseDocument\<close> does.
\<close>

lemma toJSON_after_create:
  assumes created: "instantiate E c = Inr d"
    and keys: "distinct (map fst (schema (construct E c)))"
    and declared: "map_of (schema d) key = Some dc"
    and apart: "key \<in> fst ` set (proto d) \<longrightarrow> key = ''constructor'' \<or> key = ''id''"
    and returns: "toJSON E d = Inr js"
  shows "(dprivate dc \<longrightarrow> map_of js key = None)
       \<and> (\<not> dprivate dc \<longrightarrow>
            map_of js key =
              (if read (vals d) key = Undefined
               then Some (if isArrayType (dtype dc) then Arr [] [] else Null)
               else map_of (vals d) key))
       \<and> (\<not> dprivate dc \<longrightarrow> ddefault dc = None \<longrightarrow> vals (construct E c) = [] \<longrightarrow>
            key \<notin> set object_members \<longrightarrow>
            map_of js key = Some (if isArrayType (dtype dc) then Arr [] [] else Null))"
proof -
  from created have run: "generateSchema_keys E (construct E c) (props (construct E c)) = Inr d"
    by (simp add: instantiate_def generateSchema_def)
  from generateSchema_keys_distinct [OF run keys] have dist: "distinct (map fst (schema d))" .
  have unset: "v = Undefined \<or> (isArrayType (dtype dc) \<and> v = Arr [] [])"
    if "vals (construct E c) = []" and "ddefault dc = None" and "map_of (vals d) key = Some v" for v
  proof -
    from that(1) have "\<forall>key v dc. map_of (vals (construct E c)) key = Some v
        \<longrightarrow> map_of (schema (construct E c)) key = Some dc \<longrightarrow> ddefault dc = None
        \<longrightarrow> v = Undefined \<or> (isArrayType (dtype dc) \<and> v = Arr [] [])"
      by simp
    from generateSchema_keys_unset [OF run this] declared that(2,3) show ?thesis
      by blast
  qed
  from returns have second: "toJSON_proto E d (map fst (proto d)) (toJSON_schema (schema d) (vals d)) = Inr js"
    by (simp add: toJSON_def split: if_splits)
  from apart have "key \<notin> set (map fst (proto d)) \<or> key = ''constructor'' \<or> key = ''id''"
    by auto
  from toJSON_proto_other [OF second this]
  have "map_of js key = map_of (toJSON_schema (schema d) (vals d)) key" .
  also note toJSON_schema_at [OF dist declared]
  finally have out: "map_of js key =
     (if dprivate dc then None
      else if read (vals d) key = Undefined
      then Some (if isArrayType (dtype dc) then Arr [] [] else Null)
      else map_of (vals d) key)" .
  have one: "dprivate dc \<longrightarrow> map_of js key = None"
    by (simp add: out)
  have two: "\<not> dprivate dc \<longrightarrow>
            map_of js key =
              (if read (vals d) key = Undefined
               then Some (if isArrayType (dtype dc) then Arr [] [] else Null)
               else map_of (vals d) key)"
    by (simp add: out)
  have three: "\<not> dprivate dc \<longrightarrow> ddefault dc = None \<longrightarrow> vals (construct E c) = [] \<longrightarrow>
            key \<notin> set object_members \<longrightarrow>
            map_of js key = Some (if isArrayType (dtype dc) then Arr [] [] else Null)"
    using unset by (auto simp: out read_def split: option.splits)
  from one two three show ?thesis by (intro conjI)
qed

text \<open>At the field \<^verbatim>\<open>tags\<close> of \<^verbatim>\<open>User\<close>, an array without a default.\<close>

lemma toJSON_after_create_tags:
  "\<exists>js. toJSON example_env created_User = Inr js \<and> map_of js ''tags'' = Some (Arr [] [])"
proof -
  let ?dc = "Decl (TArr [TString]) None None None None None None False"
  have h1: "instantiate example_env ''User'' = Inr created_User" by (rule instantiate_User)
  have h2: "vals (construct example_env ''User'') = []"
    by (simp add: example_env_def example_construct_def new_User_def)
  have h3: "distinct (map fst (schema (construct example_env ''User'')))"
    by (simp add: example_env_def example_construct_def new_User_def)
  have h4: "map_of (schema created_User) ''tags'' = Some ?dc"
    by (simp add: created_User_def)
  have h5: "''tags'' \<in> fst ` set (proto created_User) \<longrightarrow>
      ''tags'' = ''constructor'' \<or> ''tags'' = ''id''"
    by (simp add: created_User_def)
  have h6: "\<not> dprivate ?dc" "ddefault ?dc = None" "''tags'' \<notin> set object_members"
    by (simp_all add: object_members_def)
  obtain js where out: "toJSON example_env created_User = Inr js"
    by (simp add: created_User_def secret_decl_def id_decl_def toJSON_def proxy_get_def
        has_key_def read_def reflect_get_def object_members_def example_env_def
        example_getter_def)
  from toJSON_after_create [OF h1 h3 h4 h5 out, THEN conjunct2, THEN conjunct2,
      rule_format, OF h6(1) h6(2) h2 h6(3)]
  have "map_of js ''tags'' = Some (Arr [] [])" by simp
  with out show ?thesis by blast
qed

text \<open>A getter that throws on the new document leaves \<^verbatim>\<open>toJSON()\<close> without an output, and
  so does a field called \<^verbatim>\<open>hasOwnProperty\<close>.\<close>

lemma toJSON_throws:
  "toJSON example_env
     (Instance KDocument (Some ''users'')
        [(''_id'', id_decl), (''name'', Decl TString None None None None None None False)]
        [(''name'', Undefined)] [(''name'', TypeV TString)]
        [(''constructor'', Data (TypeV (TClass KDocument ''Sized''))),
         (''size'', Accessor (Some 1) None)]) = Inl JsTypeError"
  "toJSON E
     (Instance k m ((''hasOwnProperty'', dc) # sch) vs ps pr) = Inl JsTypeError"
  by (simp_all add: toJSON_def proxy_get_def has_key_def read_def reflect_get_def
      object_members_def example_env_def example_getter_def id_decl_def)


section \<open>Properties of the proxy handler\<close>

text \<open>
  Claim C10. The \<^verbatim>\<open>deleteProperty\<close> trap reports success for every key. The key is in
  neither map afterwards, every other key of the two maps is as before, and the ordinary
  own properties of the object are untouched; for a key that was in neither map the
  document is as before.
\<close>

theorem deleteProperty_success:
  "fst (deleteProperty d k) = True
   \<and> map_of (schema (snd (deleteProperty d k))) k = None
   \<and> map_of (vals (snd (deleteProperty d k))) k = None
   \<and> (\<forall>k'. k' \<noteq> k \<longrightarrow>
         map_of (schema (snd (deleteProperty d k))) k' = map_of (schema d) k'
         \<and> map_of (vals (snd (deleteProperty d k))) k' = map_of (vals d) k')
   \<and> props (snd (deleteProperty d k)) = props d
   \<and> proto (snd (deleteProperty d k)) = proto d
   \<and> (k \<notin> fst ` set (schema d) \<longrightarrow> k \<notin> fst ` set (vals d) \<longrightarrow> snd (deleteProperty d k) = d)"
  by (cases d) (simp add: deleteProperty_def delete_conv')

text \<open>Claim C10 at a created \<^verbatim>\<open>User\<close>: deleting the helper property \<^verbatim>\<open>_cache\<close>, which is in
  neither map, changes nothing and the property is still there; deleting the field
  \<^verbatim>\<open>name\<close> removes it and leaves \<^verbatim>\<open>tags\<close>.\<close>

theorem deleteProperty_success_witness:
  "''_cache'' \<notin> fst ` set (schema created_User)
   \<and> ''_cache'' \<notin> fst ` set (vals created_User)
   \<and> deleteProperty created_User ''_cache'' = (True, created_User)
   \<and> map_of (props created_User) ''_cache'' = Some (Num 0)
   \<and> ''tags'' \<noteq> ''name''
   \<and> map_of (schema (snd (deleteProperty created_User ''name''))) ''name'' = None
   \<and> map_of (vals (snd (deleteProperty created_User ''name''))) ''tags'' = Some (Arr [] [])"
proof -
  have h1: "''_cache'' \<notin> fst ` set (schema created_User)" by (simp add: created_User_def)
  have h2: "''_cache'' \<notin> fst ` set (vals created_User)" by (simp add: created_User_def)
  have h3: "''tags'' \<noteq> ''name''" by simp
  note a = deleteProperty_success [of created_User "''_cache''"]
  note b = deleteProperty_success [of created_User "''name''"]
  note a1 = a [THEN conjunct1]
  note a7 = a [THEN conjunct2, THEN conjunct2, THEN conjunct2, THEN conjunct2, THEN conjunct2,
      THEN conjunct2, rule_format, OF h1 h2]
  from a1 a7 have c1: "deleteProperty created_User ''_cache'' = (True, created_User)"
    by (simp add: prod_eq_iff)
  have c2: "map_of (props created_User) ''_cache'' = Some (Num 0)" by (simp add: created_User_def)
  note c3 = b [THEN conjunct2, THEN conjunct1]
  note b4 = b [THEN conjunct2, THEN conjunct2, THEN conjunct2, THEN conjunct1, rule_format,
      OF h3, THEN conjunct2]
  have c4: "map_of (vals (snd (deleteProperty created_User ''name''))) ''tags'' = Some (Arr [] [])"
    unfolding b4 by (simp add: created_User_def)
  from h1 h2 h3 c1 c2 c3 c4 show ?thesis by (intro conjI)
qed

text \<open>The names of \<^verbatim>\<open>Object.prototype\<close> through the traps: a read of one that is no field
  gives the inherited member of the values map, an assignment stores a value of that
  name whether the schema declares it or not, and \<^verbatim>\<open>in\<close> holds.\<close>

lemma proxy_object_member:
  assumes "k \<in> set object_members" and "k \<noteq> ''__proto__''"
  shows "k \<notin> fst ` set (vals d) \<Longrightarrow> proxy_get E d k = Inr (Builtin k)"
    and "proxy_set E d k v = Inr (set_value d k v)"
    and "proxy_has d k"
proof -
  show "proxy_get E d k = Inr (Builtin k)" if "k \<notin> fst ` set (vals d)"
  proof -
    from that have "map_of (vals d) k = None" by (simp add: map_of_eq_None_iff)
    with assms(1) show ?thesis by (simp add: proxy_get_def has_key_def read_def)
  qed
  have "k \<noteq> ''_schema''" "k \<noteq> ''_values''" "k \<noteq> ''_meta''"
    using assms(1) by (auto simp: object_members_def)
  with assms show "proxy_set E d k v = Inr (set_value d k v)"
    by (simp add: proxy_set_def has_key_def)
  from assms(1) show "proxy_has d k" by (simp add: proxy_has_def has_key_def)
qed


section \<open>Properties of fill\<close>

text \<open>
  Claim C9. \<^verbatim>\<open>fill(null)\<close> and \<^verbatim>\<open>fill(undefined)\<close> return the document as it was: schema,
  values and everything else unchanged, and no exception.
\<close>

theorem fill_nothing:
  "fill E d Null = (None, d) \<and> fill E d Undefined = (None, d)"
  by (simp add: fill.simps)

text \<open>For the Mongo client \<^verbatim>\<open>null\<close> and \<^verbatim>\<open>undefined\<close> are no native ids.\<close>

lemma mongo_isNativeId_value: "mongo_isNativeId v \<Longrightarrow> v \<noteq> Null \<and> v \<noteq> Undefined"
  by (cases v) simp_all

text \<open>
  Claim C8. \<^verbatim>\<open>fill(v)\<close> for a native id \<open>v\<close> of the backend (which \<^verbatim>\<open>null\<close> and \<^verbatim>\<open>undefined\<close>,
  handled before the test, are not) stores \<open>v\<close> under \<^verbatim>\<open>_id\<close>, leaves every other value,
  the schema and the rest of the document as they were, and returns without an exception.
\<close>

theorem fill_native_id:
  assumes "isNativeId E v" and "v \<noteq> Null" and "v \<noteq> Undefined"
  shows "fst (fill E d v) = None
       \<and> map_of (vals (snd (fill E d v))) ''_id'' = Some v
       \<and> (\<forall>k. k \<noteq> ''_id'' \<longrightarrow> map_of (vals (snd (fill E d v))) k = map_of (vals d) k)
       \<and> schema (snd (fill E d v)) = schema d
       \<and> props (snd (fill E d v)) = props d
       \<and> proto (snd (fill E d v)) = proto d
       \<and> kind (snd (fill E d v)) = kind d
       \<and> meta (snd (fill E d v)) = meta d"
  using assms by (simp add: fill.simps set_value_def update_conv')

text \<open>Claim C8 at a created \<^verbatim>\<open>User\<close> and an \<^verbatim>\<open>ObjectId\<close>.\<close>

theorem fill_native_id_witness:
  "isNativeId example_env (ObjectId 1 ''507f1f77bcf86cd799439011'')
   \<and> ObjectId 1 ''507f1f77bcf86cd799439011'' \<noteq> Null
   \<and> ObjectId 1 ''507f1f77bcf86cd799439011'' \<noteq> Undefined
   \<and> ''name'' \<noteq> ''_id''
   \<and> fst (fill example_env created_User (ObjectId 1 ''507f1f77bcf86cd799439011'')) = None
   \<and> map_of (vals (snd (fill example_env created_User (ObjectId 1 ''507f1f77bcf86cd799439011''))))
        ''_id'' = Some (ObjectId 1 ''507f1f77bcf86cd799439011'')
   \<and> map_of (vals (snd (fill example_env created_User (ObjectId 1 ''507f1f77bcf86cd799439011''))))
        ''name'' = Some Undefined"
proof -
  let ?v = "ObjectId 1 ''507f1f77bcf86cd799439011''"
  have h1: "isNativeId example_env ?v" by (simp add: example_env_def)
  have h2: "?v \<noteq> Null" by simp
  have h3: "?v \<noteq> Undefined" by simp
  have h4: "''name'' \<noteq> ''_id''" by simp
  note r = fill_native_id [OF h1 h2 h3, of created_User]
  note c1 = r [THEN conjunct1]
  note c2 = r [THEN conjunct2, THEN conjunct1]
  note r3 = r [THEN conjunct2, THEN conjunct2, THEN conjunct1, rule_format, OF h4]
  have c3: "map_of (vals (snd (fill example_env created_User ?v))) ''name'' = Some Undefined"
    unfolding r3 by (simp add: created_User_def)
  from h1 h2 h3 h4 c1 c2 c3 show ?thesis by (intro conjI)
qed

lemma fill_string_id:
  "fill example_env created_User (Str ''507f1f77bcf86cd799439011'') =
     (None, set_value created_User ''_id'' (Str ''507f1f77bcf86cd799439011''))"
  by (simp add: fill.simps example_env_def is_hex24_def)

text \<open>A key of the data that is a name of \<^verbatim>\<open>Object.prototype\<close> and no field of the schema
  ends \<^verbatim>\<open>fill\<close> with a \<^verbatim>\<open>TypeError\<close>, as \<^verbatim>\<open>fill({constructor: 5})\<close> does.\<close>

lemma fill_entry_object_member:
  "map_of (schema d) key = None \<Longrightarrow> key \<in> set object_members
     \<Longrightarrow> fill_entry E d key v = (Some JsTypeError, d)"
  by (simp add: fill_entry.simps)

lemma fill_constructor:
  "fill example_env created_User (Obj [(''constructor'', Num 5)]) = (Some JsTypeError, created_User)"
  by (simp add: fill.simps fill_entry.simps example_env_def created_User_def object_members_def)


section \<open>The cache of populate\<close>

text \<open>The cache keeps its promise on the keys it can compare: a load from the cache
  preserves the agreement of cache and calls, and so does every loop of the synchronous
  part.\<close>

lemma loadFromCache_deduplicated:
  assumes "deduplicated st"
  shows "deduplicated (snd (loadFromCache t i st))"
proof -
  define tcache where "tcache = (case map_of (cache st) t of None \<Rightarrow> [] | Some tc \<Rightarrow> tc)"
  from assms have listed: "\<exists>tc. map_of (cache st) (fst (loads st ! p)) = Some tc
      \<and> (snd (loads st ! p), p) \<in> set tc" if "p < length (loads st)" for p
    using that by (simp add: deduplicated_def)
  from assms have apart: "\<not> same_key (snd (loads st ! p)) (snd (loads st ! q))"
    if "q < length (loads st)" "p < q" "fst (loads st ! p) = fst (loads st ! q)" for p q
    using that by (simp add: deduplicated_def)
  show ?thesis
  proof (cases "find (\<lambda>entry. same_key (fst entry) i) tcache")
    case (Some entry)
    then have "tcache \<noteq> []" by auto
    then have known: "map_of (cache st) t = Some tcache"
      by (auto simp: tcache_def split: option.splits)
    from Some have st': "snd (loadFromCache t i st) = st\<lparr>cache := AList.update t tcache (cache st)\<rparr>"
      by (simp add: loadFromCache_def tcache_def [symmetric])
    have "map_of (AList.update t tcache (cache st)) = map_of (cache st)"
      using known by (auto simp: update_conv')
    with assms show ?thesis
      unfolding st' by (simp add: deduplicated_def)
  next
    case None
    let ?n = "length (loads st)"
    from None have st': "snd (loadFromCache t i st) =
        st\<lparr>cache := AList.update t (tcache @ [(i, ?n)]) (cache st), loads := loads st @ [(t, i)]\<rparr>"
      by (simp add: loadFromCache_def tcache_def [symmetric])
    from None have fresh: "\<not> same_key k i" if "(k, p) \<in> set tcache" for k p
      using that by (auto simp: find_None_iff)
    have one: "\<exists>tc. map_of (AList.update t (tcache @ [(i, ?n)]) (cache st))
                      (fst ((loads st @ [(t, i)]) ! p)) = Some tc
                 \<and> (snd ((loads st @ [(t, i)]) ! p), p) \<in> set tc"
      if "p < Suc ?n" for p
    proof (cases "p < ?n")
      case True
      from listed [OF True] obtain tc where tc: "map_of (cache st) (fst (loads st ! p)) = Some tc"
        "(snd (loads st ! p), p) \<in> set tc" by blast
      show ?thesis
      proof (cases "fst (loads st ! p) = t")
        case same: True
        with tc have "tcache = tc" by (simp add: tcache_def)
        with tc True same show ?thesis by (simp add: update_conv' nth_append)
      next
        case False
        with tc True show ?thesis by (simp add: update_conv' nth_append)
      qed
    next
      case False
      with that have "p = ?n" by simp
      then show ?thesis by (simp add: update_conv' nth_append)
    qed
    have two: "\<not> same_key (snd ((loads st @ [(t, i)]) ! p)) (snd ((loads st @ [(t, i)]) ! q))"
      if "q < Suc ?n" "p < q" "fst ((loads st @ [(t, i)]) ! p) = fst ((loads st @ [(t, i)]) ! q)"
      for p q
    proof (cases "q < ?n")
      case True
      with that apart [of q p] show ?thesis by (simp add: nth_append)
    next
      case False
      with that have q: "q = ?n" and p: "p < ?n" by simp_all
      with that(3) have ty: "fst (loads st ! p) = t" by (simp add: nth_append)
      from listed [OF p] ty obtain tc where tc: "map_of (cache st) t = Some tc"
        "(snd (loads st ! p), p) \<in> set tc" by auto
      then have "tcache = tc" by (simp add: tcache_def)
      with tc fresh have "\<not> same_key (snd (loads st ! p)) i" by blast
      with p q show ?thesis by (simp add: nth_append)
    qed
    from one two show ?thesis
      unfolding st' by (simp add: deduplicated_def)
  qed
qed


lemma deduplicated_thens [simp]: "deduplicated (st\<lparr>thens := x\<rparr>) = deduplicated st"
  by (simp add: deduplicated_def)

lemma deduplicated_documents [simp]: "deduplicated (st\<lparr>documents := x\<rparr>) = deduplicated st"
  by (simp add: deduplicated_def)

lemma load_ids_deduplicated:
  "deduplicated st \<Longrightarrow> deduplicated (load_ids t n key ids st)"
proof (induction ids arbitrary: st)
  case Nil
  then show ?case by simp
next
  case (Cons i ids)
  from loadFromCache_deduplicated [OF Cons.prems, of t i]
  show ?case
    by (cases "loadFromCache t i st") (simp add: Cons.IH)
qed

lemma visit_deduplicated:
  assumes "deduplicated st" and "visit E keyDef n st = Inr st'"
  shows "deduplicated st'"
proof -
  obtain key t isArr where keyDef: "keyDef = (key, t, isArr)" by (cases keyDef)
  let ?d = "documents st ! n"
  from assms(2) keyDef obtain v where v: "proxy_get E ?d key = Inr v"
    by (auto simp: visit_def Let_def split: sum.splits)
  show ?thesis
  proof (cases "isArr \<and> truthy v")
    case True
    with assms(2) keyDef v obtain ids ps d2 where
      "st' = (load_ids t n key ids st)\<lparr>documents := (documents (load_ids t n key ids st))[n := d2]\<rparr>"
      by (auto simp: visit_def Let_def split: jsval.splits if_splits sum.splits)
    with load_ids_deduplicated [OF assms(1)] show ?thesis by simp
  next
    case False
    with assms(2) keyDef v
    have "st' = (snd (loadFromCache t v st))
        \<lparr>thens := thens (snd (loadFromCache t v st))
            @ [(fst (loadFromCache t v st), AssignTo n key)]\<rparr>"
      by (auto simp: visit_def Let_def split: prod.splits)
    with loadFromCache_deduplicated [OF assms(1)] show ?thesis by simp
  qed
qed

lemma visit_documents_deduplicated:
  "deduplicated st \<Longrightarrow> visit_documents E keyDef ns st = Inr st' \<Longrightarrow> deduplicated st'"
proof (induction ns arbitrary: st)
  case Nil
  then show ?case by simp
next
  case (Cons n ns)
  from Cons.prems(2) obtain st1 where one: "visit E keyDef n st = Inr st1"
    and rest: "visit_documents E keyDef ns st1 = Inr st'"
    by (auto split: sum.splits)
  from visit_deduplicated [OF Cons.prems(1) one] rest show ?case by (rule Cons.IH)
qed

lemma visit_keyDefs_deduplicated:
  "deduplicated st \<Longrightarrow> visit_keyDefs E defs st = Inr st' \<Longrightarrow> deduplicated st'"
proof (induction defs arbitrary: st)
  case Nil
  then show ?case by simp
next
  case (Cons keyDef defs)
  from Cons.prems(2) obtain st1 where
    one: "visit_documents E keyDef [0..<length (documents st)] st = Inr st1"
    and rest: "visit_keyDefs E defs st1 = Inr st'"
    by (auto split: sum.splits)
  from visit_documents_deduplicated [OF Cons.prems(1) one] rest show ?case by (rule Cons.IH)
qed

lemma issue_loads_deduplicated:
  assumes "issue_loads E docs = Inr st"
  shows "deduplicated st"
proof (cases docs)
  case Nil
  with assms show ?thesis by (auto simp: issue_loads_def deduplicated_def)
next
  case (Cons anInstance others)
  have "deduplicated \<lparr>cache = [], loads = [], thens = [], documents = docs\<rparr>"
    by (simp add: deduplicated_def)
  with assms Cons show ?thesis
    by (auto simp: issue_loads_def split: sum.splits intro: visit_keyDefs_deduplicated)
qed

text \<open>So one \<^verbatim>\<open>populate\<close> never calls \<^verbatim>\<open>loadById\<close> twice with the same type and an id that
  the cache can recognise: a string or another primitive value, or the very same object.
  This is the part of claim C3 that the code keeps.\<close>

lemma backend_calls_once:
  assumes "q < length (backend_calls E docs)" and "p < q"
    and "backend_calls E docs ! p = (t, i)" and "same_key i i"
  shows "backend_calls E docs ! q \<noteq> (t, i)"
proof (cases "issue_loads E docs")
  case (Inl e)
  with assms(1) show ?thesis by (simp add: backend_calls_def)
next
  case (Inr st)
  then have calls: "backend_calls E docs = loads st" by (simp add: backend_calls_def)
  from issue_loads_deduplicated [OF Inr] assms(1,2) calls
  have "fst (loads st ! p) = fst (loads st ! q)
      \<longrightarrow> \<not> same_key (snd (loads st ! p)) (snd (loads st ! q))"
    by (simp add: deduplicated_def)
  with assms(3,4) calls show ?thesis by auto
qed

lemma same_key_string: "same_key (Str s) (Str s)"
  by (simp add: same_key_def)

lemma same_key_ObjectId: "same_key (ObjectId a h) (ObjectId b h) \<longleftrightarrow> a = b"
  by (simp add: same_key_def)


section \<open>populate on the examples\<close>

lemma keyDefs_blog_post:
  "keyDefs example_env (blog_post tags Null) (schema (blog_post tags Null)) =
     Inr [(''tags'', TClass KDocument ''Tag'', True)]"
  by (simp add: blog_post_def id_decl_def reference_array_def proxy_get_def has_key_def
      read_def reflect_get_def object_members_def base_methods_def example_env_def)

lemma keyDefs_blog_post_author:
  "mongo_isNativeId author \<Longrightarrow>
   keyDefs example_env (blog_post tags author) (schema (blog_post tags author)) =
     Inr [(''tags'', TClass KDocument ''Tag'', True),
          (''author'', TClass KDocument ''User'', False)]"
  by (simp add: blog_post_def id_decl_def reference_array_def proxy_get_def has_key_def
      read_def reflect_get_def object_members_def base_methods_def example_env_def)

lemma load_stored:
  "loadById example_env t (Str s) = Inr (Inst (stored s))"
  "loadById example_env t (ObjectId a h) = Inr (Inst (stored h))"
  by (simp_all add: example_env_def example_loadById_def)

lemma push_tags_first:
  "run_callback E (PushTo 0 ''tags'') data (blog_post (Arr xs ps) author # ds) =
     Inr (blog_post (Arr (xs @ [data]) ps) author # ds)"
  by (simp add: run_callback_def modify_slot_def push_def blog_post_def set_value_def)

lemma push_tags_second:
  "run_callback E (PushTo (Suc 0) ''tags'') data (d # blog_post (Arr xs ps) author # ds) =
     Inr (d # blog_post (Arr (xs @ [data]) ps) author # ds)"
  by (simp add: run_callback_def modify_slot_def push_def blog_post_def set_value_def)

lemmas visit_simps =
  visit_def blog_post_def proxy_get_def proxy_set_def has_key_def read_def
  object_members_def loadFromCache_def same_key_def modify_slot_def set_idList_def
  set_value_def Let_def

lemma issue_loads_two_posts:
  "issue_loads example_env
     [blog_post (Arr [Str ''a'', Str ''b''] []) Null, blog_post (Arr [Str ''b'', Str ''a''] []) Null] =
     Inr \<lparr>cache = [(TClass KDocument ''Tag'', [(Str ''a'', 0), (Str ''b'', 1)])],
          loads = [(TClass KDocument ''Tag'', Str ''a''), (TClass KDocument ''Tag'', Str ''b'')],
          thens = [(0, PushTo 0 ''tags''), (1, PushTo 0 ''tags''),
                   (1, PushTo 1 ''tags''), (0, PushTo 1 ''tags'')],
          documents = [blog_post (Arr [] [(''idList'', Arr [Str ''a'', Str ''b''] [])]) Null,
                       blog_post (Arr [] [(''idList'', Arr [Str ''b'', Str ''a''] [])]) Null]\<rparr>"
  unfolding issue_loads_def list.case keyDefs_blog_post sum.case
  by (simp add: visit_simps)

lemma issue_loads_one_post:
  "issue_loads example_env [blog_post (Arr [Str ''a'', Str ''b'', Str ''a''] []) Null] =
     Inr \<lparr>cache = [(TClass KDocument ''Tag'', [(Str ''a'', 0), (Str ''b'', 1)])],
          loads = [(TClass KDocument ''Tag'', Str ''a''), (TClass KDocument ''Tag'', Str ''b'')],
          thens = [(0, PushTo 0 ''tags''), (1, PushTo 0 ''tags''), (0, PushTo 0 ''tags'')],
          documents = [blog_post (Arr [] [(''idList'', Arr [Str ''a'', Str ''b'', Str ''a''] [])]) Null]\<rparr>"
  unfolding issue_loads_def list.case keyDefs_blog_post sum.case
  by (simp add: visit_simps)

text \<open>
  Claim C2, at two posts that carry the same two tags in opposite orders. Each tag is
  loaded once, and both posts wait on the same two promises; a promise that is fulfilled
  runs its callbacks for both posts. Whichever load the backend completes first, both
  posts end with their tags in the order of completion, so one of them has its tags in
  the reverse of its id list (which is kept on the array, as claimed).
\<close>

theorem populate_order_lost:
  "populate example_env
     [blog_post (Arr [Str ''a'', Str ''b''] []) Null, blog_post (Arr [Str ''b'', Str ''a''] []) Null]
     [0, 1] =
     Inr (Resolved,
          [blog_post (Arr [Inst (stored ''a''), Inst (stored ''b'')]
                       [(''idList'', Arr [Str ''a'', Str ''b''] [])]) Null,
           blog_post (Arr [Inst (stored ''a''), Inst (stored ''b'')]
                       [(''idList'', Arr [Str ''b'', Str ''a''] [])]) Null])
   \<and> populate example_env
     [blog_post (Arr [Str ''a'', Str ''b''] []) Null, blog_post (Arr [Str ''b'', Str ''a''] []) Null]
     [1, 0] =
     Inr (Resolved,
          [blog_post (Arr [Inst (stored ''b''), Inst (stored ''a'')]
                       [(''idList'', Arr [Str ''a'', Str ''b''] [])]) Null,
           blog_post (Arr [Inst (stored ''b''), Inst (stored ''a'')]
                       [(''idList'', Arr [Str ''b'', Str ''a''] [])]) Null])
   \<and> element_ids (blog_post (Arr [Inst (stored ''a''), Inst (stored ''b'')]
                       [(''idList'', Arr [Str ''b'', Str ''a''] [])]) Null) ''tags'' =
       [Str ''a'', Str ''b'']
   \<and> idList (blog_post (Arr [Inst (stored ''a''), Inst (stored ''b'')]
                       [(''idList'', Arr [Str ''b'', Str ''a''] [])]) Null) ''tags'' =
       Arr [Str ''b'', Str ''a''] []
   \<and> element_ids (blog_post (Arr [Inst (stored ''b''), Inst (stored ''a'')]
                       [(''idList'', Arr [Str ''a'', Str ''b''] [])]) Null) ''tags'' =
       [Str ''b'', Str ''a'']
   \<and> idList (blog_post (Arr [Inst (stored ''b''), Inst (stored ''a'')]
                       [(''idList'', Arr [Str ''a'', Str ''b''] [])]) Null) ''tags'' =
       Arr [Str ''a'', Str ''b''] []"
proof -
  have run: "populate example_env
     [blog_post (Arr [Str ''a'', Str ''b''] []) Null, blog_post (Arr [Str ''b'', Str ''a''] []) Null]
     [0, 1] =
     Inr (Resolved,
          [blog_post (Arr [Inst (stored ''a''), Inst (stored ''b'')]
                       [(''idList'', Arr [Str ''a'', Str ''b''] [])]) Null,
           blog_post (Arr [Inst (stored ''a''), Inst (stored ''b'')]
                       [(''idList'', Arr [Str ''b'', Str ''a''] [])]) Null])"
    "populate example_env
     [blog_post (Arr [Str ''a'', Str ''b''] []) Null, blog_post (Arr [Str ''b'', Str ''a''] []) Null]
     [1, 0] =
     Inr (Resolved,
          [blog_post (Arr [Inst (stored ''b''), Inst (stored ''a'')]
                       [(''idList'', Arr [Str ''a'', Str ''b''] [])]) Null,
           blog_post (Arr [Inst (stored ''b''), Inst (stored ''a'')]
                       [(''idList'', Arr [Str ''b'', Str ''a''] [])]) Null])"
    unfolding populate_def issue_loads_two_posts sum.case
    by (simp_all add: load_stored push_tags_first push_tags_second)
  have shown: "element_ids (blog_post (Arr [Inst (stored i), Inst (stored j)] ps) Null) ''tags'' =
      [Str i, Str j]"
    "idList (blog_post (Arr xs [(''idList'', l)]) Null) ''tags'' = l" for i j ps xs l
    by (simp_all add: element_ids_def idList_def id_of_def read_def blog_post_def stored_def)
  from run shown show ?thesis by (intro conjI) 
qed

text \<open>The same within one document whose id list names a tag twice.\<close>

lemma populate_order_lost_in_one_document:
  "populate example_env [blog_post (Arr [Str ''a'', Str ''b'', Str ''a''] []) Null] [0, 1] =
     Inr (Resolved,
          [blog_post (Arr [Inst (stored ''a''), Inst (stored ''a''), Inst (stored ''b'')]
                       [(''idList'', Arr [Str ''a'', Str ''b'', Str ''a''] [])]) Null])
   \<and> populate example_env [blog_post (Arr [Str ''a'', Str ''b'', Str ''a''] []) Null] [1, 0] =
     Inr (Resolved,
          [blog_post (Arr [Inst (stored ''b''), Inst (stored ''a''), Inst (stored ''a'')]
                       [(''idList'', Arr [Str ''a'', Str ''b'', Str ''a''] [])]) Null])"
  unfolding populate_def issue_loads_one_post sum.case
  by (simp add: load_stored push_tags_first)

text \<open>
  Claim C3, at two posts whose author fields hold two \<^verbatim>\<open>ObjectId\<close> objects with the same
  hex value, as two documents read from the Mongo backend do: the cache, a \<^verbatim>\<open>Map\<close>,
  compares the objects by identity, and \<^verbatim>\<open>loadById\<close> is called twice for the one author.
\<close>

theorem populate_loads_twice:
  "backend_calls example_env
     [blog_post (Arr [] []) (ObjectId 1 ''507f1f77bcf86cd799439011''),
      blog_post (Arr [] []) (ObjectId 2 ''507f1f77bcf86cd799439011'')] =
     [(TClass KDocument ''User'', ObjectId 1 ''507f1f77bcf86cd799439011''),
      (TClass KDocument ''User'', ObjectId 2 ''507f1f77bcf86cd799439011'')]"
proof -
  have k: "keyDefs example_env (blog_post (Arr [] []) (ObjectId 1 ''507f1f77bcf86cd799439011''))
      (schema (blog_post (Arr [] []) (ObjectId 1 ''507f1f77bcf86cd799439011''))) =
     Inr [(''tags'', TClass KDocument ''Tag'', True),
          (''author'', TClass KDocument ''User'', False)]"
    by (rule keyDefs_blog_post_author) simp
  show ?thesis
    unfolding backend_calls_def issue_loads_def list.case k sum.case
    by (simp add: visit_simps)
qed

text \<open>Three posts whose author fields hold the same id as a string: one call.\<close>

lemma populate_loads_once_by_string:
  "backend_calls example_env
     [blog_post (Arr [] []) (Str ''507f1f77bcf86cd799439011''),
      blog_post (Arr [] []) (Str ''507f1f77bcf86cd799439011''),
      blog_post (Arr [] []) (Str ''507f1f77bcf86cd799439011'')] =
     [(TClass KDocument ''User'', Str ''507f1f77bcf86cd799439011'')]"
proof -
  have k: "keyDefs example_env (blog_post (Arr [] []) (Str ''507f1f77bcf86cd799439011''))
      (schema (blog_post (Arr [] []) (Str ''507f1f77bcf86cd799439011''))) =
     Inr [(''tags'', TClass KDocument ''Tag'', True),
          (''author'', TClass KDocument ''User'', False)]"
    by (rule keyDefs_blog_post_author) (simp add: is_hex24_def)
  show ?thesis
    unfolding backend_calls_def issue_loads_def list.case k sum.case
    by (simp add: visit_simps)
qed


end
